theory Spec2Isabelle
  imports Main "HOL-Library.Multiset" "HOL-Library.Sublist"
begin

section \<open>JavaScript values\<close>

text \<open>
  A number is \<^verbatim>\<open>NaN\<close>, an infinity, a zero (the flag says negative) or a finite
  number other than zero. A finite number is given by what \<^verbatim>\<open>Number::toString\<close> is
  specified on: its sign, the decimal digits \<open>s\<close> of its shortest representation (a
  positive number that does not end in \<open>0\<close>) and the exponent \<open>n\<close>, so that its
  value is \<open>s * 10^(n - k)\<close> where \<open>k\<close> is the count of the digits of \<open>s\<close>. The
  number \<open>8\<close> is \<open>JsDecimal False 8 1\<close>, \<open>20\<close> is \<open>JsDecimal False 2 2\<close>, one half is
  \<open>JsDecimal False 5 0\<close> and \<open>10^21\<close> is \<open>JsDecimal False 1 22\<close>.
\<close>

datatype jsnumber =
    JsNaN
  | JsInfinity bool
  | JsZero bool
  | JsDecimal bool nat int

text \<open>
  The values a field of an \<^verbatim>\<open>EndpointParameters\<close> object can hold at run time:
  \<^verbatim>\<open>undefined\<close>, \<^verbatim>\<open>null\<close>, booleans, numbers, strings and arrays. Arrays are
  ordinary arrays, extensible and with writable elements: an array that
  \<^verbatim>\<open>Object.freeze\<close> was applied to is not a value here.

  Strings are byte lists. A JavaScript string is represented by its UTF-8 encoding,
  generalised to strings that are not well formed: a surrogate pair is the four bytes of
  its code point, and a lone surrogate is the three bytes \<open>ED\<close>, \<open>A0..BF\<close>,
  \<open>80..BF\<close> that the same scheme gives its code unit.
\<close>

datatype jsvalue =
    JUndefined
  | JNull
  | JBool bool
  | JNum jsnumber
  | JStr string
  | JArr "jsvalue list"

text \<open>
  An object is the list of its own enumerable string-keyed properties in property
  order, which for names that are not array indices is the order of creation. This is
  the list \<^verbatim>\<open>Object.entries\<close> returns. Keys are pairwise distinct.
\<close>

type_synonym jsobject = "(string \<times> jsvalue) list"

text \<open>\<^verbatim>\<open>ToBoolean\<close>: the test of \<^verbatim>\<open>if (value)\<close>.\<close>

fun ToBoolean :: "jsvalue \<Rightarrow> bool" where
  "ToBoolean JUndefined = False"
| "ToBoolean JNull = False"
| "ToBoolean (JBool b) = b"
| "ToBoolean (JNum x) = (case x of JsNaN \<Rightarrow> False | JsZero negative \<Rightarrow> False | _ \<Rightarrow> True)"
| "ToBoolean (JStr s) = (s \<noteq> [])"
| "ToBoolean (JArr xs) = True"

definition digit_char :: "nat \<Rightarrow> char" where
  "digit_char n = ''0123456789'' ! n"

fun nat_to_string :: "nat \<Rightarrow> string" where
  "nat_to_string n =
     (if n < 10 then [digit_char n]
      else nat_to_string (n div 10) @ [digit_char (n mod 10)])"

declare nat_to_string.simps [simp del]

text \<open>
  \<^verbatim>\<open>Number::toString\<close> in radix 10 on the digits \<open>s\<close> and the exponent \<open>n\<close>:
  plain digits, with zeros appended or a decimal point inserted, for \<open>-5 \<le> n \<le> 21\<close>,
  and the exponential form otherwise.
\<close>

definition decimal_toString :: "nat \<Rightarrow> int \<Rightarrow> string" where
  "decimal_toString s n =
     (let digits = nat_to_string s; k = int (length digits) in
      if - 5 \<le> n \<and> n \<le> 21 then
        (if k \<le> n then digits @ replicate (nat (n - k)) (CHR ''0'')
         else if 0 < n then take (nat n) digits @ ''.'' @ drop (nat n) digits
         else ''0.'' @ replicate (nat (- n)) (CHR ''0'') @ digits)
      else
        (if k = 1 then digits else take 1 digits @ ''.'' @ drop 1 digits)
        @ ''e'' @ (if n < 0 then ''-'' else ''+'') @ nat_to_string (nat (abs (n - 1))))"

fun Number_toString :: "jsnumber \<Rightarrow> string" where
  "Number_toString JsNaN = ''NaN''"
| "Number_toString (JsInfinity negative) = (if negative then ''-Infinity'' else ''Infinity'')"
| "Number_toString (JsZero negative) = ''0''"
| "Number_toString (JsDecimal negative s n) =
     (if negative then ''-'' else []) @ decimal_toString s n"

text \<open>\<^verbatim>\<open>Array.prototype.join\<close> on strings that are already converted.\<close>

fun join :: "string \<Rightarrow> string list \<Rightarrow> string" where
  "join sep [] = []"
| "join sep [x] = x"
| "join sep (x # y # ys) = x @ sep @ join sep (y # ys)"

text \<open>
  \<^verbatim>\<open>ToString\<close>. An array converts as \<^verbatim>\<open>join(",")\<close> does: \<^verbatim>\<open>undefined\<close> and
  \<^verbatim>\<open>null\<close> elements give the empty string, every other element its own conversion.
  For a value that is neither \<^verbatim>\<open>undefined\<close> nor \<^verbatim>\<open>null\<close> the method call
  \<^verbatim>\<open>value.toString()\<close> returns this string.
\<close>

fun ToString :: "jsvalue \<Rightarrow> string" where
  "ToString JUndefined = ''undefined''"
| "ToString JNull = ''null''"
| "ToString (JBool b) = (if b then ''true'' else ''false'')"
| "ToString (JNum x) = Number_toString x"
| "ToString (JStr s) = s"
| "ToString (JArr xs) =
     join '','' (map (\<lambda>x. if x = JUndefined \<or> x = JNull then [] else ToString x) xs)"

section \<open>Objects\<close>

text \<open>
  \<^verbatim>\<open>CreateDataProperty\<close>, as an object literal and a spread perform it: an existing
  key keeps its place and takes the new value, a new key goes to the end.
\<close>

fun define_property :: "jsobject \<Rightarrow> string \<Rightarrow> jsvalue \<Rightarrow> jsobject" where
  "define_property [] k v = [(k, v)]"
| "define_property ((k', v') # ps) k v =
     (if k' = k then (k, v) # ps else (k', v') # define_property ps k v)"

text \<open>
  The spread \<^verbatim>\<open>{ ...literal, ...source }\<close>: every own property of the source is
  defined on the object under construction. Spreading \<^verbatim>\<open>undefined\<close> adds nothing.
\<close>

definition spread :: "jsobject \<Rightarrow> jsobject \<Rightarrow> jsobject" where
  "spread literal source = foldl (\<lambda>acc (k, v). define_property acc k v) literal source"

definition spread_optional :: "jsobject \<Rightarrow> jsobject option \<Rightarrow> jsobject" where
  "spread_optional literal source =
     (case source of None \<Rightarrow> literal | Some s \<Rightarrow> spread literal s)"

text \<open>The own properties of an optional object as a map; \<^verbatim>\<open>undefined\<close> has none.\<close>

definition own_properties :: "jsobject option \<Rightarrow> (string \<rightharpoonup> jsvalue)" where
  "own_properties obj = (case obj of None \<Rightarrow> Map.empty | Some ps \<Rightarrow> map_of ps)"

text \<open>An optional object is well formed when its keys are pairwise distinct.\<close>

definition distinct_keys :: "jsobject option \<Rightarrow> bool" where
  "distinct_keys obj = (case obj of None \<Rightarrow> True | Some ps \<Rightarrow> distinct (map fst ps))"

text \<open>
  The assignment \<^verbatim>\<open>target[k] = v\<close> that \<^verbatim>\<open>Object.assign\<close> performs on a plain
  object that is not frozen. The key \<^verbatim>\<open>__proto__\<close> reaches the accessor of
  \<^verbatim>\<open>Object.prototype\<close>, which creates no own property; it replaces the prototype when
  the value is an array or \<^verbatim>\<open>null\<close>. Any other key becomes an own property: a property
  of that name inherited from \<^verbatim>\<open>Object.prototype\<close>, or from an array that has become the
  prototype, is a writable data property, since the arrays here are not frozen.
\<close>

definition set_property :: "jsobject \<Rightarrow> string \<Rightarrow> jsvalue \<Rightarrow> jsobject" where
  "set_property target k v =
     (if k = ''__proto__'' then target else define_property target k v)"

definition Object_assign :: "jsobject \<Rightarrow> jsobject \<Rightarrow> jsobject" where
  "Object_assign target source = foldl (\<lambda>acc (k, v). set_property acc k v) target source"

section \<open>utils/parameters.ts\<close>

definition newParameterNames :: "(string \<times> string) list" where
  "newParameterNames =
    [(''aspectRatioRange'', ''ar_range''),
     (''clientKey'', ''client_key''),
     (''contentFilter'', ''contentfilter''),
     (''contentFormats'', ''media_filter''),
     (''positionId'', ''pos''),
     (''isRandomOrder'', ''random''),
     (''searchFilter'', ''searchfilter''),
     (''searchTerm'', ''q'')]"

text \<open>
  \<^verbatim>\<open>Object.hasOwn(newParameterNames, currentName) ? newParameterNames[currentName]
  : currentName\<close>
\<close>

definition newName :: "string \<Rightarrow> string" where
  "newName currentName =
     (case map_of newParameterNames currentName of
        Some n \<Rightarrow> n
      | None \<Rightarrow> currentName)"

definition renameParameters :: "jsobject \<Rightarrow> jsobject" where
  "renameParameters parameters =
     foldl (\<lambda>renamedParameters (currentName, value).
              Object_assign renamedParameters [(newName currentName, value)])
       [] parameters"

text \<open>
  The conversion to a \<^verbatim>\<open>USVString\<close>, which \<^verbatim>\<open>URLSearchParams.append\<close> applies to
  the name and to the value: every lone surrogate becomes U+FFFD, whose bytes are
  \<open>EF BF BD\<close>.
\<close>

definition replacement_character :: string where
  "replacement_character = [CHR 0xEF, CHR 0xBF, CHR 0xBD]"

definition in_range :: "nat \<Rightarrow> nat \<Rightarrow> char \<Rightarrow> bool" where
  "in_range lo hi c \<longleftrightarrow> lo \<le> of_char c \<and> of_char c \<le> hi"

definition is_surrogate :: "char \<Rightarrow> char \<Rightarrow> char \<Rightarrow> bool" where
  "is_surrogate a b c \<longleftrightarrow> a = CHR 0xED \<and> in_range 0xA0 0xBF b \<and> in_range 0x80 0xBF c"

fun to_usv :: "string \<Rightarrow> string" where
  "to_usv (a # b # c # s) =
     (if is_surrogate a b c then replacement_character @ to_usv s
      else a # to_usv (b # c # s))"
| "to_usv s = s"

text \<open>A \<^verbatim>\<open>URLSearchParams\<close> object is its list of name-value pairs.\<close>

type_synonym URLSearchParams = "(string \<times> string) list"

definition append_param :: "URLSearchParams \<Rightarrow> string \<Rightarrow> string \<Rightarrow> URLSearchParams" where
  "append_param urlParameters name v = urlParameters @ [(to_usv name, to_usv v)]"

definition createUrlParameters :: "jsobject \<Rightarrow> URLSearchParams" where
  "createUrlParameters parameters =
     foldl (\<lambda>urlParameters (name, value).
              if ToBoolean value then
                (if value = JArr [] then urlParameters
                 else append_param urlParameters name (ToString value))
              else urlParameters)
       [] parameters"

section \<open>Serialising and parsing a query string\<close>

text \<open>
  \<^verbatim>\<open>URLSearchParams.prototype.toString\<close> is the
  \<^verbatim>\<open>application/x-www-form-urlencoded\<close> serialiser of the URL standard: a space
  becomes \<^verbatim>\<open>+\<close>, the bytes \<^verbatim>\<open>* - . _\<close>, digits and letters stay, every other byte
  becomes \<^verbatim>\<open>%\<close> and two upper-case hexadecimal digits; pairs are written
  \<^verbatim>\<open>name=value\<close> and joined by \<^verbatim>\<open>&\<close>.
\<close>

definition urlencoded_safe :: "char list" where
  "urlencoded_safe =
     ''*-._0123456789ABCDEFGHIJKLMNOPQRSTUVWXYZabcdefghijklmnopqrstuvwxyz''"

definition hex_digit :: "nat \<Rightarrow> char" where
  "hex_digit n = ''0123456789ABCDEF'' ! n"

definition percent_encode_byte :: "char \<Rightarrow> string" where
  "percent_encode_byte c =
     [CHR ''%'', hex_digit ((of_char c :: nat) div 16), hex_digit ((of_char c :: nat) mod 16)]"

definition urlencoded_byte :: "char \<Rightarrow> string" where
  "urlencoded_byte c =
     (if c = CHR '' '' then ''+''
      else if c \<in> set urlencoded_safe then [c]
      else percent_encode_byte c)"

definition urlencoded_serialize :: "string \<Rightarrow> string" where
  "urlencoded_serialize s = concat (map urlencoded_byte s)"

definition URLSearchParams_toString :: "URLSearchParams \<Rightarrow> string" where
  "URLSearchParams_toString urlParameters =
     join ''&'' (map (\<lambda>(name, v). urlencoded_serialize name @ ''='' @ urlencoded_serialize v)
       urlParameters)"

text \<open>
  The parser of the same standard, which \<^verbatim>\<open>new URLSearchParams(string)\<close> runs: split
  at \<^verbatim>\<open>&\<close>, skip empty pieces, split each piece at its first \<^verbatim>\<open>=\<close>, turn
  \<^verbatim>\<open>+\<close> into a space, percent-decode, and decode the bytes as UTF-8.
\<close>

fun split_on :: "char \<Rightarrow> string \<Rightarrow> string list" where
  "split_on sep [] = [[]]"
| "split_on sep (c # cs) =
     (if c = sep then [] # split_on sep cs
      else (case split_on sep cs of
              [] \<Rightarrow> [[c]]
            | w # ws \<Rightarrow> (c # w) # ws))"

definition is_hex_digit :: "char \<Rightarrow> bool" where
  "is_hex_digit c \<longleftrightarrow> c \<in> set ''0123456789ABCDEFabcdef''"

definition hex_value :: "char \<Rightarrow> nat" where
  "hex_value c =
     (let n = (of_char c :: nat) in
      if n \<le> 57 then n - 48 else if n \<le> 70 then n - 55 else n - 87)"

fun percent_decode :: "string \<Rightarrow> string" where
  "percent_decode (c # a # b # cs) =
     (if c = CHR ''%'' \<and> is_hex_digit a \<and> is_hex_digit b
      then char_of (16 * hex_value a + hex_value b) # percent_decode cs
      else c # percent_decode (a # b # cs))"
| "percent_decode cs = cs"

text \<open>
  The UTF-8 decoder of the Encoding standard, without byte order mark handling, as the
  parser uses it. A lead byte asks for one to three continuation bytes, the first of them
  within bounds that depend on the lead byte. When a byte is missing or out of bounds,
  the bytes read so far give one U+FFFD and decoding goes on at the offending byte.
  The result is again a string in its UTF-8 encoding.
\<close>

fun continuation_bytes :: "nat \<Rightarrow> nat \<Rightarrow> nat \<Rightarrow> string \<Rightarrow> nat \<times> bool" where
  "continuation_bytes 0 lo hi s = (0, True)"
| "continuation_bytes (Suc m) lo hi [] = (0, False)"
| "continuation_bytes (Suc m) lo hi (c # s) =
     (if in_range lo hi c
      then (case continuation_bytes m 0x80 0xBF s of (k, complete) \<Rightarrow> (Suc k, complete))
      else (0, False))"

definition lead_byte :: "char \<Rightarrow> (nat \<times> nat \<times> nat) option" where
  "lead_byte b =
     (let n = (of_char b :: nat) in
      if 0xC2 \<le> n \<and> n \<le> 0xDF then Some (1, 0x80, 0xBF)
      else if n = 0xE0 then Some (2, 0xA0, 0xBF)
      else if n = 0xED then Some (2, 0x80, 0x9F)
      else if 0xE1 \<le> n \<and> n \<le> 0xEF then Some (2, 0x80, 0xBF)
      else if n = 0xF0 then Some (3, 0x90, 0xBF)
      else if n = 0xF4 then Some (3, 0x80, 0x8F)
      else if 0xF1 \<le> n \<and> n \<le> 0xF3 then Some (3, 0x80, 0xBF)
      else None)"

function utf8_decode :: "string \<Rightarrow> string" where
  "utf8_decode [] = []"
| "utf8_decode (b # s) =
     (if (of_char b :: nat) < 0x80 then b # utf8_decode s
      else case lead_byte b of
             None \<Rightarrow> replacement_character @ utf8_decode s
           | Some (m, lo, hi) \<Rightarrow>
               (case continuation_bytes m lo hi s of
                  (k, complete) \<Rightarrow>
                    (if complete then b # take k s else replacement_character)
                    @ utf8_decode (drop k s)))"
  by pat_completeness auto
termination
  by (relation "measure length") auto

text \<open>
  The well-formed UTF-8 byte sequences of the Unicode standard (its table 3-7): the
  strings without a lone surrogate.
\<close>

fun well_formed_utf8 :: "string \<Rightarrow> bool" where
  "well_formed_utf8 [] = True"
| "well_formed_utf8 (a # s) =
     (if (of_char a :: nat) < 0x80 then well_formed_utf8 s
      else if in_range 0xC2 0xDF a then
        (case s of
           b # s' \<Rightarrow> in_range 0x80 0xBF b \<and> well_formed_utf8 s'
         | _ \<Rightarrow> False)
      else if in_range 0xE0 0xEF a then
        (case s of
           b # c # s' \<Rightarrow>
             in_range (if a = CHR 0xE0 then 0xA0 else 0x80) (if a = CHR 0xED then 0x9F else 0xBF) b \<and>
             in_range 0x80 0xBF c \<and> well_formed_utf8 s'
         | _ \<Rightarrow> False)
      else if in_range 0xF0 0xF4 a then
        (case s of
           b # c # d # s' \<Rightarrow>
             in_range (if a = CHR 0xF0 then 0x90 else 0x80) (if a = CHR 0xF4 then 0x8F else 0xBF) b \<and>
             in_range 0x80 0xBF c \<and> in_range 0x80 0xBF d \<and> well_formed_utf8 s'
         | _ \<Rightarrow> False)
      else False)"

definition plus_to_space :: "string \<Rightarrow> string" where
  "plus_to_space s = map (\<lambda>c. if c = CHR ''+'' then CHR '' '' else c) s"

definition parse_pair :: "string \<Rightarrow> string \<times> string" where
  "parse_pair bytes =
     (let name = takeWhile (\<lambda>c. c \<noteq> CHR ''='') bytes;
          v = drop 1 (dropWhile (\<lambda>c. c \<noteq> CHR ''='') bytes)
      in (utf8_decode (percent_decode (plus_to_space name)),
          utf8_decode (percent_decode (plus_to_space v))))"

definition urlencoded_parse :: "string \<Rightarrow> URLSearchParams" where
  "urlencoded_parse input =
     map parse_pair (filter (\<lambda>bytes. bytes \<noteq> []) (split_on (CHR ''&'') input))"

text \<open>\<^verbatim>\<open>URLSearchParams.prototype.get\<close>: the value of the first pair with the name.\<close>

definition get_param :: "URLSearchParams \<Rightarrow> string \<Rightarrow> string option" where
  "get_param urlParameters name = map_of urlParameters name"

text \<open>\<^verbatim>\<open>URLSearchParams.prototype.getAll\<close>: the values of all pairs with the name.\<close>

definition getAll :: "URLSearchParams \<Rightarrow> string \<Rightarrow> string list" where
  "getAll urlParameters name = map snd (filter (\<lambda>(n, v). n = name) urlParameters)"

section \<open>utils/fetch.ts\<close>

text \<open>
  A decoded JSON body. The representation of numbers is left open: the client never
  looks at one.
\<close>

datatype 'n json =
    JsonNull
  | JsonBool bool
  | JsonNumber 'n
  | JsonString string
  | JsonArray "'n json list"
  | JsonObject "(string \<times> 'n json) list"

text \<open>
  Modelled from the spec: the class \<^verbatim>\<open>GoogleApiError\<close> of
  \<^verbatim>\<open>errors/google-api-error.ts\<close>, which is not among the sources. It is the typed remote
  API error and carries the code and the message of the error object it is constructed
  from; the constructor \<open>GoogleApiError\<close> keeps that argument (\<open>None\<close> is
  \<^verbatim>\<open>undefined\<close>). The other constructors are the rejections of \<^verbatim>\<open>fetch\<close> and of
  \<^verbatim>\<open>Response.json\<close>, and the \<^verbatim>\<open>TypeError\<close> of reading a property of \<^verbatim>\<open>null\<close>.
\<close>

datatype 'n error =
    TransportError string
  | JsonParseError
  | TypeError
  | GoogleApiError "'n json option"

text \<open>
  Reading a property whose name no prototype defines (\<^verbatim>\<open>error\<close>, \<^verbatim>\<open>status\<close>,
  \<^verbatim>\<open>code\<close>, \<^verbatim>\<open>message\<close>): \<open>None\<close> is \<^verbatim>\<open>undefined\<close>.
\<close>

fun get_property :: "'n json \<Rightarrow> string \<Rightarrow> 'n error + 'n json option" where
  "get_property JsonNull k = Inl TypeError"
| "get_property (JsonObject ps) k = Inr (map_of ps k)"
| "get_property (JsonBool b) k = Inr None"
| "get_property (JsonNumber n) k = Inr None"
| "get_property (JsonString s) k = Inr None"
| "get_property (JsonArray xs) k = Inr None"

text \<open>
  Modelled from the spec: the code and the message that a \<^verbatim>\<open>GoogleApiError\<close>
  carries, which the absent class would expose as fields. They are the \<^verbatim>\<open>code\<close> and
  \<^verbatim>\<open>message\<close> of the error object it was constructed from.
\<close>

definition GoogleApiError_code :: "'n error \<Rightarrow> 'n json option" where
  "GoogleApiError_code e =
     (case e of GoogleApiError (Some (JsonObject ps)) \<Rightarrow> map_of ps ''code'' | _ \<Rightarrow> None)"

definition GoogleApiError_message :: "'n error \<Rightarrow> 'n json option" where
  "GoogleApiError_message e =
     (case e of GoogleApiError (Some (JsonObject ps)) \<Rightarrow> map_of ps ''message'' | _ \<Rightarrow> None)"

text \<open>
  What \<^verbatim>\<open>fetch\<close> resolves to: the status of the response and the outcome of
  \<^verbatim>\<open>response.json()\<close>. \<^verbatim>\<open>response.ok\<close> is true for the statuses 200 to 299.
\<close>

record 'n response =
  status :: nat
  json_body :: "'n error + 'n json"

definition ok :: "'n response \<Rightarrow> bool" where
  "ok response \<longleftrightarrow> 200 \<le> status response \<and> status response \<le> 299"

text \<open>
  The transport is a parameter: \<open>fetch path\<close> stands for
  \<^verbatim>\<open>await fetch(new URL(path, "https://tenor.googleapis.com/v2/"))\<close> and is either a
  rejection or a response.
\<close>

type_synonym 'n transport = "string \<Rightarrow> 'n error + 'n response"

definition fetchTenorApi :: "'n transport \<Rightarrow> string \<Rightarrow> 'n error + 'n json" where
  "fetchTenorApi fetch path =
     (case fetch path of
        Inl e \<Rightarrow> Inl e
      | Inr response \<Rightarrow>
          (case json_body response of
             Inl e \<Rightarrow> Inl e
           | Inr jsonResponse \<Rightarrow>
               if \<not> ok response then
                 (case get_property jsonResponse ''error'' of
                    Inl e \<Rightarrow> Inl e
                  | Inr err \<Rightarrow> Inl (GoogleApiError err))
               else Inr jsonResponse))"

definition fetchTenorApiEndpoint ::
  "'n transport \<Rightarrow> string \<Rightarrow> jsobject \<Rightarrow> 'n error + 'n json" where
  "fetchTenorApiEndpoint fetch resourceName parameters =
     fetchTenorApi fetch
       (resourceName @ ''?'' @
        URLSearchParams_toString (createUrlParameters (renameParameters parameters)))"

section \<open>tenor.ts\<close>

record TenorApi =
  key :: string
  options :: "jsobject option"

text \<open>\<^verbatim>\<open>{ key: this.#key, ...this.options, ...parameters }\<close>\<close>

definition combineParameters :: "TenorApi \<Rightarrow> jsobject option \<Rightarrow> jsobject" where
  "combineParameters this parameters =
     spread_optional (spread_optional [(''key'', JStr (key this))] (options this)) parameters"

definition getSearchTermSuggestions ::
  "'n transport \<Rightarrow> TenorApi \<Rightarrow> string \<Rightarrow> jsobject option \<Rightarrow> 'n error + 'n json" where
  "getSearchTermSuggestions fetch this searchTerm parameters =
     fetchTenorApiEndpoint fetch ''search_suggestions''
       (combineParameters this
          (Some (spread_optional [(''searchTerm'', JStr searchTerm)] parameters)))"

definition getSearchTermAutocompletes ::
  "'n transport \<Rightarrow> TenorApi \<Rightarrow> string \<Rightarrow> jsobject option \<Rightarrow> 'n error + 'n json" where
  "getSearchTermAutocompletes fetch this searchTerm parameters =
     fetchTenorApiEndpoint fetch ''autocomplete''
       (combineParameters this
          (Some (spread_optional [(''searchTerm'', JStr searchTerm)] parameters)))"

definition getTrendingSearchTerms ::
  "'n transport \<Rightarrow> TenorApi \<Rightarrow> jsobject option \<Rightarrow> 'n error + 'n json" where
  "getTrendingSearchTerms fetch this parameters =
     fetchTenorApiEndpoint fetch ''trending_terms'' (combineParameters this parameters)"

definition getGifsBySearch ::
  "'n transport \<Rightarrow> TenorApi \<Rightarrow> string \<Rightarrow> jsobject option \<Rightarrow> 'n error + 'n json" where
  "getGifsBySearch fetch this searchTerm parameters =
     fetchTenorApiEndpoint fetch ''search''
       (combineParameters this
          (Some (spread_optional [(''searchTerm'', JStr searchTerm)] parameters)))"

record GifCategory =
  searchterm :: string
  path :: string
  image_url :: string
  name :: string

definition getGifsByCategory ::
  "'n transport \<Rightarrow> TenorApi \<Rightarrow> GifCategory \<Rightarrow> jsobject option \<Rightarrow> 'n error + 'n json" where
  "getGifsByCategory fetch this category parameters =
     fetchTenorApi fetch
       (path category @ ''&'' @
        URLSearchParams_toString
          (createUrlParameters (renameParameters (combineParameters this parameters))))"

definition getGifsById ::
  "'n transport \<Rightarrow> TenorApi \<Rightarrow> string list \<Rightarrow> jsobject option \<Rightarrow> 'n error + 'n json" where
  "getGifsById fetch this ids parameters =
     fetchTenorApiEndpoint fetch ''posts''
       (combineParameters this
          (Some (spread_optional [(''ids'', JArr (map JStr ids))] parameters)))"

definition getFeaturedGifs ::
  "'n transport \<Rightarrow> TenorApi \<Rightarrow> jsobject option \<Rightarrow> 'n error + 'n json" where
  "getFeaturedGifs fetch this parameters =
     fetchTenorApiEndpoint fetch ''featured'' (combineParameters this parameters)"

definition getGifCategories ::
  "'n transport \<Rightarrow> TenorApi \<Rightarrow> jsobject option \<Rightarrow> 'n error + 'n json" where
  "getGifCategories fetch this parameters =
     fetchTenorApiEndpoint fetch ''categories'' (combineParameters this parameters)"

definition registerGifShareEvent ::
  "'n transport \<Rightarrow> TenorApi \<Rightarrow> string \<Rightarrow> jsobject option \<Rightarrow> 'n error + 'n json option" where
  "registerGifShareEvent fetch this gifId parameters =
     (case fetchTenorApiEndpoint fetch ''registershare''
             (spread_optional [(''id'', JStr gifId)] parameters) of
        Inl e \<Rightarrow> Inl e
      | Inr response \<Rightarrow> get_property response ''status'')"

section \<open>The same functions on a store of mutable objects\<close>

text \<open>
  To speak about mutation, the objects live in a store: an address is an index into the
  heap, an object has its properties and the flag that \<^verbatim>\<open>Object.freeze\<close> sets. The
  state also holds the two fields of the client, \<^verbatim>\<open>#key\<close> and \<^verbatim>\<open>options\<close>, the
  latter a reference to the options object or \<^verbatim>\<open>undefined\<close>. Values are immutable
  here, arrays included: nothing in the sources writes to an array.
\<close>

record heap_object =
  properties :: jsobject
  frozen :: bool

type_synonym address = nat

record program_state =
  heap :: "heap_object list"
  this_key :: string
  this_options :: "address option"

text \<open>An object literal allocates a new object, not frozen.\<close>

definition new_object :: "program_state \<Rightarrow> jsobject \<Rightarrow> program_state \<times> address" where
  "new_object s ps =
     (s\<lparr>heap := heap s @ [\<lparr>properties = ps, frozen = False\<rparr>]\<rparr>, length (heap s))"

definition Object_freeze_store :: "program_state \<Rightarrow> address \<Rightarrow> program_state" where
  "Object_freeze_store s a = s\<lparr>heap := (heap s)[a := (heap s ! a)\<lparr>frozen := True\<rparr>]\<rparr>"

definition Object_entries_store :: "program_state \<Rightarrow> address \<Rightarrow> jsobject" where
  "Object_entries_store s a = properties (heap s ! a)"

definition optional_entries :: "program_state \<Rightarrow> address option \<Rightarrow> jsobject option" where
  "optional_entries s a = map_option (Object_entries_store s) a"

text \<open>
  The assignment \<^verbatim>\<open>target[k] = v\<close> of \<^verbatim>\<open>Object.assign\<close> in the store; \<open>None\<close>
  is the \<^verbatim>\<open>TypeError\<close> it throws on a frozen target. The key \<^verbatim>\<open>__proto__\<close>
  calls the accessor, which throws only when asked to change the prototype (to an
  object or \<^verbatim>\<open>null\<close>) of a frozen object. On a target that is not frozen no other
  key throws: an inherited property of the same name would have to be read-only, and
  neither \<^verbatim>\<open>Object.prototype\<close> nor an array of this model (none is frozen) has one.
\<close>

definition set_property_store ::
  "program_state \<Rightarrow> address \<Rightarrow> string \<Rightarrow> jsvalue \<Rightarrow> program_state option" where
  "set_property_store s target k v =
     (if k = ''__proto__'' then
        (if frozen (heap s ! target) \<and> (case v of JNull \<Rightarrow> True | JArr xs \<Rightarrow> True | _ \<Rightarrow> False)
         then None else Some s)
      else if frozen (heap s ! target) then None
      else Some (s\<lparr>heap := (heap s)[target :=
                    (heap s ! target)\<lparr>properties :=
                       define_property (properties (heap s ! target)) k v\<rparr>]\<rparr>))"

fun Object_assign_store ::
  "program_state \<Rightarrow> address \<Rightarrow> jsobject \<Rightarrow> program_state option" where
  "Object_assign_store s target [] = Some s"
| "Object_assign_store s target ((k, v) # source) =
     (case set_property_store s target k v of
        None \<Rightarrow> None
      | Some s' \<Rightarrow> Object_assign_store s' target source)"

text \<open>
  The loop of \<^verbatim>\<open>renameParameters\<close> over the entries read before it starts. The
  rename table and the one-property source object of each assignment are local and
  never escape, so they are values here.
\<close>

fun rename_loop :: "program_state \<Rightarrow> address \<Rightarrow> jsobject \<Rightarrow> program_state option" where
  "rename_loop s renamedParameters [] = Some s"
| "rename_loop s renamedParameters ((currentName, value) # entries) =
     (case Object_assign_store s renamedParameters [(newName currentName, value)] of
        None \<Rightarrow> None
      | Some s' \<Rightarrow> rename_loop s' renamedParameters entries)"

definition renameParameters_store ::
  "program_state \<Rightarrow> address \<Rightarrow> (program_state \<times> address) option" where
  "renameParameters_store s parameters =
     (let (s1, renamedParameters) = new_object s [] in
      case rename_loop s1 renamedParameters (Object_entries_store s1 parameters) of
        None \<Rightarrow> None
      | Some s2 \<Rightarrow> Some (Object_freeze_store s2 renamedParameters, renamedParameters))"

definition combineParameters_store ::
  "program_state \<Rightarrow> address option \<Rightarrow> program_state \<times> address" where
  "combineParameters_store s parameters =
     (let (s1, combined) =
            new_object s
              (spread_optional
                 (spread_optional [(''key'', JStr (this_key s))]
                    (optional_entries s (this_options s)))
                 (optional_entries s parameters))
      in (Object_freeze_store s1 combined, combined))"

definition fetchTenorApiEndpoint_store ::
  "'n transport \<Rightarrow> program_state \<Rightarrow> string \<Rightarrow> address
     \<Rightarrow> ('n error + 'n json) \<times> program_state" where
  "fetchTenorApiEndpoint_store fetch s resourceName parameters =
     (case renameParameters_store s parameters of
        None \<Rightarrow> (Inl TypeError, s)
      | Some (s1, renamed) \<Rightarrow>
          (fetchTenorApi fetch
             (resourceName @ ''?'' @
              URLSearchParams_toString (createUrlParameters (Object_entries_store s1 renamed))),
           s1))"

definition getSearchTermSuggestions_store ::
  "'n transport \<Rightarrow> program_state \<Rightarrow> string \<Rightarrow> address option
     \<Rightarrow> ('n error + 'n json) \<times> program_state" where
  "getSearchTermSuggestions_store fetch s searchTerm parameters =
     (let (s1, literal) =
            new_object s
              (spread_optional [(''searchTerm'', JStr searchTerm)] (optional_entries s parameters));
          (s2, combined) = combineParameters_store s1 (Some literal)
      in fetchTenorApiEndpoint_store fetch s2 ''search_suggestions'' combined)"

definition getSearchTermAutocompletes_store ::
  "'n transport \<Rightarrow> program_state \<Rightarrow> string \<Rightarrow> address option
     \<Rightarrow> ('n error + 'n json) \<times> program_state" where
  "getSearchTermAutocompletes_store fetch s searchTerm parameters =
     (let (s1, literal) =
            new_object s
              (spread_optional [(''searchTerm'', JStr searchTerm)] (optional_entries s parameters));
          (s2, combined) = combineParameters_store s1 (Some literal)
      in fetchTenorApiEndpoint_store fetch s2 ''autocomplete'' combined)"

definition getTrendingSearchTerms_store ::
  "'n transport \<Rightarrow> program_state \<Rightarrow> address option
     \<Rightarrow> ('n error + 'n json) \<times> program_state" where
  "getTrendingSearchTerms_store fetch s parameters =
     (let (s1, combined) = combineParameters_store s parameters
      in fetchTenorApiEndpoint_store fetch s1 ''trending_terms'' combined)"

definition getGifsBySearch_store ::
  "'n transport \<Rightarrow> program_state \<Rightarrow> string \<Rightarrow> address option
     \<Rightarrow> ('n error + 'n json) \<times> program_state" where
  "getGifsBySearch_store fetch s searchTerm parameters =
     (let (s1, literal) =
            new_object s
              (spread_optional [(''searchTerm'', JStr searchTerm)] (optional_entries s parameters));
          (s2, combined) = combineParameters_store s1 (Some literal)
      in fetchTenorApiEndpoint_store fetch s2 ''search'' combined)"

definition getGifsByCategory_store ::
  "'n transport \<Rightarrow> program_state \<Rightarrow> GifCategory \<Rightarrow> address option
     \<Rightarrow> ('n error + 'n json) \<times> program_state" where
  "getGifsByCategory_store fetch s category parameters =
     (let (s1, combined) = combineParameters_store s parameters in
      case renameParameters_store s1 combined of
        None \<Rightarrow> (Inl TypeError, s1)
      | Some (s2, renamed) \<Rightarrow>
          (fetchTenorApi fetch
             (path category @ ''&'' @
              URLSearchParams_toString (createUrlParameters (Object_entries_store s2 renamed))),
           s2))"

definition getGifsById_store ::
  "'n transport \<Rightarrow> program_state \<Rightarrow> string list \<Rightarrow> address option
     \<Rightarrow> ('n error + 'n json) \<times> program_state" where
  "getGifsById_store fetch s ids parameters =
     (let (s1, literal) =
            new_object s
              (spread_optional [(''ids'', JArr (map JStr ids))] (optional_entries s parameters));
          (s2, combined) = combineParameters_store s1 (Some literal)
      in fetchTenorApiEndpoint_store fetch s2 ''posts'' combined)"

definition getFeaturedGifs_store ::
  "'n transport \<Rightarrow> program_state \<Rightarrow> address option
     \<Rightarrow> ('n error + 'n json) \<times> program_state" where
  "getFeaturedGifs_store fetch s parameters =
     (let (s1, combined) = combineParameters_store s parameters
      in fetchTenorApiEndpoint_store fetch s1 ''featured'' combined)"

definition getGifCategories_store ::
  "'n transport \<Rightarrow> program_state \<Rightarrow> address option
     \<Rightarrow> ('n error + 'n json) \<times> program_state" where
  "getGifCategories_store fetch s parameters =
     (let (s1, combined) = combineParameters_store s parameters
      in fetchTenorApiEndpoint_store fetch s1 ''categories'' combined)"

definition registerGifShareEvent_store ::
  "'n transport \<Rightarrow> program_state \<Rightarrow> string \<Rightarrow> address option
     \<Rightarrow> ('n error + 'n json option) \<times> program_state" where
  "registerGifShareEvent_store fetch s gifId parameters =
     (let (s1, literal) =
            new_object s
              (spread_optional [(''id'', JStr gifId)] (optional_entries s parameters));
          (result, s2) = fetchTenorApiEndpoint_store fetch s1 ''registershare'' literal
      in case result of
           Inl e \<Rightarrow> (Inl e, s2)
         | Inr response \<Rightarrow> (get_property response ''status'', s2))"

text \<open>
  What a call leaves alone: the two fields of the client, and every object that existed
  before the call, with its properties and its frozen flag.
\<close>

definition preserved :: "program_state \<Rightarrow> program_state \<Rightarrow> bool" where
  "preserved s s' \<longleftrightarrow>
     this_key s' = this_key s \<and> this_options s' = this_options s \<and>
     length (heap s) \<le> length (heap s') \<and>
     (\<forall>a < length (heap s). heap s' ! a = heap s ! a)"

text \<open>The value of the client that the state holds.\<close>

definition client_of :: "program_state \<Rightarrow> TenorApi" where
  "client_of s = \<lparr>key = this_key s, options = optional_entries s (this_options s)\<rparr>"

text \<open>An optional reference is valid when it is \<^verbatim>\<open>undefined\<close> or points into the heap.\<close>

definition valid_reference :: "program_state \<Rightarrow> address option \<Rightarrow> bool" where
  "valid_reference s a = (case a of None \<Rightarrow> True | Some x \<Rightarrow> x < length (heap s))"

section \<open>Properties of the string conversions\<close>

lemma to_usv_plain:
  "to_usv (a # s) = a # to_usv s" if "a \<noteq> CHR 0xED"
proof (cases s)
  case Nil
  then show ?thesis by simp
next
  case (Cons b s')
  with that show ?thesis by (cases s') (simp_all add: is_surrogate_def)
qed

lemma well_formed_utf8_cases:
  assumes "well_formed_utf8 (a # s)"
  obtains (one) "(of_char a :: nat) < 0x80" "well_formed_utf8 s"
  | (two) b s' where "s = b # s'" "\<not> (of_char a :: nat) < 0x80" "in_range 0xC2 0xDF a"
      "in_range 0x80 0xBF b" "well_formed_utf8 s'"
  | (three) b c s' where "s = b # c # s'" "\<not> (of_char a :: nat) < 0x80" "in_range 0xE0 0xEF a"
      "in_range (if a = CHR 0xE0 then 0xA0 else 0x80) (if a = CHR 0xED then 0x9F else 0xBF) b"
      "in_range 0x80 0xBF c" "well_formed_utf8 s'"
  | (four) b c d s' where "s = b # c # d # s'" "\<not> (of_char a :: nat) < 0x80"
      "in_range 0xF0 0xF4 a"
      "in_range (if a = CHR 0xF0 then 0x90 else 0x80) (if a = CHR 0xF4 then 0x8F else 0xBF) b"
      "in_range 0x80 0xBF c" "in_range 0x80 0xBF d" "well_formed_utf8 s'"
proof (cases "(of_char a :: nat) < 0x80")
  case True
  with assms one show ?thesis by simp
next
  case ascii: False
  show ?thesis
  proof (cases "in_range 0xC2 0xDF a")
    case True
    with assms ascii two show ?thesis
      by (cases s) simp_all
  next
    case no2: False
    show ?thesis
    proof (cases "in_range 0xE0 0xEF a")
      case True
      with assms ascii no2 three show ?thesis
        by (cases s; cases "tl s") auto
    next
      case no3: False
      show ?thesis
      proof (cases "in_range 0xF0 0xF4 a")
        case True
        with assms ascii no2 no3 four show ?thesis
          by (cases s; cases "tl s"; cases "tl (tl s)") auto
      next
        case False
        with assms ascii no2 no3 show ?thesis by simp
      qed
    qed
  qed
qed


lemma CHR_eq_iff: "a = c \<longleftrightarrow> (of_char a :: nat) = of_char c"
  by simp

lemma lead_byte_two:
  "in_range 0xC2 0xDF a \<Longrightarrow> lead_byte a = Some (1, 0x80, 0xBF)"
  by (simp add: lead_byte_def in_range_def)

lemma lead_byte_three:
  "in_range 0xE0 0xEF a \<Longrightarrow>
     lead_byte a = Some (2, if a = CHR 0xE0 then 0xA0 else 0x80, if a = CHR 0xED then 0x9F else 0xBF)"
  by (simp add: lead_byte_def in_range_def CHR_eq_iff[of a])

lemma lead_byte_four:
  "in_range 0xF0 0xF4 a \<Longrightarrow>
     lead_byte a = Some (3, if a = CHR 0xF0 then 0x90 else 0x80, if a = CHR 0xF4 then 0x8F else 0xBF)"
  by (simp add: lead_byte_def in_range_def CHR_eq_iff[of a])

lemma utf8_decode_one:
  "(of_char a :: nat) < 0x80 \<Longrightarrow> utf8_decode (a # s) = a # utf8_decode s"
  by simp

lemma utf8_decode_two:
  assumes "\<not> (of_char a :: nat) < 0x80" "in_range 0xC2 0xDF a" "in_range 0x80 0xBF b"
  shows "utf8_decode (a # b # s) = a # b # utf8_decode s"
  using assms by (simp add: lead_byte_two)

lemma utf8_decode_three:
  assumes "\<not> (of_char a :: nat) < 0x80" "in_range 0xE0 0xEF a"
    "in_range (if a = CHR 0xE0 then 0xA0 else 0x80) (if a = CHR 0xED then 0x9F else 0xBF) b"
    "in_range 0x80 0xBF c"
  shows "utf8_decode (a # b # c # s) = a # b # c # utf8_decode s"
  using assms by (simp add: lead_byte_three numeral_2_eq_2 del: One_nat_def)

lemma utf8_decode_four:
  assumes "\<not> (of_char a :: nat) < 0x80" "in_range 0xF0 0xF4 a"
    "in_range (if a = CHR 0xF0 then 0x90 else 0x80) (if a = CHR 0xF4 then 0x8F else 0xBF) b"
    "in_range 0x80 0xBF c" "in_range 0x80 0xBF d"
  shows "utf8_decode (a # b # c # d # s) = a # b # c # d # utf8_decode s"
  using assms by (simp add: lead_byte_four numeral_3_eq_3 del: One_nat_def)

lemma utf8_decode_well_formed: "well_formed_utf8 s \<Longrightarrow> utf8_decode s = s"
proof (induction "length s" arbitrary: s rule: less_induct)
  case less
  show ?case
  proof (cases s)
    case Nil
    then show ?thesis by simp
  next
    case (Cons a t)
    with less.prems have "well_formed_utf8 (a # t)" by simp
    then show ?thesis
    proof (cases rule: well_formed_utf8_cases)
      case one
      with less.hyps[of t] Cons show ?thesis by simp
    next
      case (two b s')
      with less.hyps[of s'] Cons show ?thesis by (simp add: utf8_decode_two del: utf8_decode.simps)
    next
      case (three b c s')
      with less.hyps[of s'] Cons show ?thesis by (simp add: utf8_decode_three del: utf8_decode.simps)
    next
      case (four b c d s')
      with less.hyps[of s'] Cons show ?thesis by (simp add: utf8_decode_four del: utf8_decode.simps)
    qed
  qed
qed

lemma in_range_not_ED: "in_range lo hi c \<Longrightarrow> hi < 0xED \<Longrightarrow> c \<noteq> CHR 0xED"
  by (auto simp add: in_range_def)

lemma to_usv_three:
  assumes "in_range 0xE0 0xEF a"
    "in_range (if a = CHR 0xE0 then 0xA0 else 0x80) (if a = CHR 0xED then 0x9F else 0xBF) b"
    "in_range 0x80 0xBF c"
  shows "to_usv (a # b # c # s) = a # b # c # to_usv s"
proof -
  have "\<not> is_surrogate a b c"
    using assms(2) by (auto simp add: is_surrogate_def in_range_def)
  moreover have "b \<noteq> CHR 0xED" "c \<noteq> CHR 0xED"
    using assms(2,3) by (auto simp add: in_range_def split: if_splits)
  ultimately show ?thesis by (simp add: to_usv_plain)
qed

lemma to_usv_well_formed: "well_formed_utf8 s \<Longrightarrow> to_usv s = s"
proof (induction "length s" arbitrary: s rule: less_induct)
  case less
  show ?case
  proof (cases s)
    case Nil
    then show ?thesis by simp
  next
    case (Cons a t)
    with less.prems have "well_formed_utf8 (a # t)" by simp
    then show ?thesis
    proof (cases rule: well_formed_utf8_cases)
      case one
      then have "a \<noteq> CHR 0xED" by auto
      with one less.hyps[of t] Cons show ?thesis by (simp add: to_usv_plain del: to_usv.simps)
    next
      case (two b s')
      then have "a \<noteq> CHR 0xED" "b \<noteq> CHR 0xED" by (auto simp add: in_range_def)
      with two less.hyps[of s'] Cons show ?thesis by (simp add: to_usv_plain del: to_usv.simps)
    next
      case (three b c s')
      with less.hyps[of s'] Cons show ?thesis by (simp add: to_usv_three del: to_usv.simps)
    next
      case (four b c d s')
      then have "a \<noteq> CHR 0xED" "b \<noteq> CHR 0xED" "c \<noteq> CHR 0xED" "d \<noteq> CHR 0xED"
        by (auto simp add: in_range_def split: if_splits)
      with four less.hyps[of s'] Cons show ?thesis by (simp add: to_usv_plain del: to_usv.simps)
    qed
  qed
qed

section \<open>Properties of the query-string serialiser and parser\<close>

lemma upt_16: "[0..<16] = [0, 1, 2, 3, 4, 5, 6, 7, 8, 9, 10, 11, 12, 13, 14, 15::nat]"
  by (simp add: upt_rec)

lemma hex_digit_cases:
  assumes "n < 16"
  shows "is_hex_digit (hex_digit n) \<and> hex_value (hex_digit n) = n \<and> hex_digit n \<noteq> CHR ''+''
     \<and> hex_digit n \<noteq> CHR ''&'' \<and> hex_digit n \<noteq> CHR ''=''"
proof -
  from assms have "n \<in> set [0..<16]" by simp
  then show ?thesis
    unfolding upt_16 by (auto simp add: hex_digit_def is_hex_digit_def hex_value_def)
qed

lemma of_char_div_16: "(of_char c :: nat) div 16 < 16"
  by (rule less_mult_imp_div_less) simp

lemma percent_decode_plain:
  "percent_decode (c # cs) = c # percent_decode cs" if "c \<noteq> CHR ''%''"
proof (cases cs)
  case Nil
  then show ?thesis by simp
next
  case (Cons a cs')
  with that show ?thesis by (cases cs') simp_all
qed

lemma percent_decode_encoded:
  "percent_decode (percent_encode_byte c @ cs) = c # percent_decode cs"
  using hex_digit_cases[OF of_char_div_16[of c]] hex_digit_cases[of "of_char c mod 16"]
  by (simp add: percent_encode_byte_def)

lemma urlencoded_byte_no_delimiter:
  "CHR ''&'' \<notin> set (urlencoded_byte c) \<and> CHR ''='' \<notin> set (urlencoded_byte c)"
  using hex_digit_cases[OF of_char_div_16[of c]] hex_digit_cases[of "of_char c mod 16"]
  by (auto simp add: urlencoded_byte_def percent_encode_byte_def urlencoded_safe_def)

lemma urlencoded_serialize_no_delimiter:
  "CHR ''&'' \<notin> set (urlencoded_serialize s) \<and> CHR ''='' \<notin> set (urlencoded_serialize s)"
  using urlencoded_byte_no_delimiter by (auto simp add: urlencoded_serialize_def)

lemma decode_urlencoded_byte:
  "percent_decode (plus_to_space (urlencoded_byte c @ cs)) = c # percent_decode (plus_to_space cs)"
proof -
  have enc: "plus_to_space (percent_encode_byte c @ cs) = percent_encode_byte c @ plus_to_space cs"
    using hex_digit_cases[OF of_char_div_16[of c]] hex_digit_cases[of "of_char c mod 16"]
    by (simp add: plus_to_space_def percent_encode_byte_def)
  show ?thesis
  proof (cases "c = CHR '' ''")
    case True
    then show ?thesis
      by (simp add: urlencoded_byte_def plus_to_space_def percent_decode_plain)
  next
    case False
    show ?thesis
    proof (cases "c \<in> set urlencoded_safe")
      case True
      then have "c \<noteq> CHR ''%''" "c \<noteq> CHR ''+''"
        by (auto simp add: urlencoded_safe_def)
      with True False show ?thesis
        by (simp add: urlencoded_byte_def plus_to_space_def percent_decode_plain)
    next
      case notsafe: False
      with False show ?thesis
        by (simp add: urlencoded_byte_def enc percent_decode_encoded)
    qed
  qed
qed

lemma decode_urlencoded_serialize:
  "percent_decode (plus_to_space (urlencoded_serialize s)) = s"
proof (induction s)
  case Nil
  show ?case by (simp add: urlencoded_serialize_def plus_to_space_def)
next
  case (Cons c s)
  have "urlencoded_serialize (c # s) = urlencoded_byte c @ urlencoded_serialize s"
    by (simp add: urlencoded_serialize_def)
  with Cons show ?case by (simp add: decode_urlencoded_byte)
qed

lemma split_on_free: "sep \<notin> set w \<Longrightarrow> split_on sep w = [w]"
  by (induction w) auto

lemma split_on_append:
  "sep \<notin> set w \<Longrightarrow> split_on sep (w @ sep # rest) = w # split_on sep rest"
  by (induction w) auto

lemma split_on_join:
  "ws \<noteq> [] \<Longrightarrow> \<forall>w \<in> set ws. sep \<notin> set w \<Longrightarrow> split_on sep (join [sep] ws) = ws"
proof (induction ws rule: induct_list012)
  case 1
  then show ?case by simp
next
  case (2 x)
  then show ?case by (simp add: split_on_free)
next
  case (3 x y ys)
  then show ?case by (simp add: split_on_append)
qed

lemma parse_pair_serialized:
  "parse_pair (urlencoded_serialize n @ ''='' @ urlencoded_serialize v) =
     (utf8_decode n, utf8_decode v)"
proof -
  have n: "CHR ''='' \<notin> set (urlencoded_serialize n)"
    using urlencoded_serialize_no_delimiter by blast
  then have "takeWhile (\<lambda>c. c \<noteq> CHR ''='') (urlencoded_serialize n @ CHR ''='' # urlencoded_serialize v)
               = urlencoded_serialize n"
    by (intro trans[OF takeWhile_append2]) auto
  moreover from n have "dropWhile (\<lambda>c. c \<noteq> CHR ''='') (urlencoded_serialize n @ CHR ''='' # urlencoded_serialize v)
               = CHR ''='' # urlencoded_serialize v"
    by (intro trans[OF dropWhile_append2]) auto
  ultimately show ?thesis
    by (simp add: parse_pair_def decode_urlencoded_serialize)
qed

lemma urlencoded_parse_toString:
  "urlencoded_parse (URLSearchParams_toString us) =
     map (\<lambda>(n, v). (utf8_decode n, utf8_decode v)) us"
proof (cases "us = []")
  case True
  then show ?thesis by (simp add: urlencoded_parse_def URLSearchParams_toString_def)
next
  case False
  let ?pieces = "map (\<lambda>(name, v). urlencoded_serialize name @ ''='' @ urlencoded_serialize v) us"
  have free: "\<forall>w \<in> set ?pieces. CHR ''&'' \<notin> set w"
    using urlencoded_serialize_no_delimiter by auto
  have nonempty: "\<forall>w \<in> set ?pieces. w \<noteq> []"
    by auto
  from False have "split_on (CHR ''&'') (join ''&'' ?pieces) = ?pieces"
    using split_on_join[OF _ free] by simp
  moreover from nonempty have "filter (\<lambda>bytes. bytes \<noteq> []) ?pieces = ?pieces"
    by (simp add: filter_id_conv)
  moreover have "map parse_pair ?pieces = map (\<lambda>(n, v). (utf8_decode n, utf8_decode v)) us"
    using parse_pair_serialized by (simp add: split_def)
  ultimately show ?thesis
    by (simp add: urlencoded_parse_def URLSearchParams_toString_def)
qed

section \<open>Properties of the query builder\<close>

lemma createUrlParameters_foldl:
  "foldl (\<lambda>urlParameters (name, value).
              if ToBoolean value then
                (if value = JArr [] then urlParameters
                 else append_param urlParameters name (ToString value))
              else urlParameters) acc parameters
   = acc @ map (\<lambda>(name, value). (to_usv name, to_usv (ToString value)))
             (filter (\<lambda>(name, value). ToBoolean value \<and> value \<noteq> JArr []) parameters)"
proof (induction parameters arbitrary: acc)
  case Nil
  show ?case by simp
next
  case (Cons p parameters)
  obtain k v where "p = (k, v)" by (cases p)
  with Cons show ?case by (simp add: append_param_def)
qed

lemma createUrlParameters_eq:
  "createUrlParameters parameters =
     map (\<lambda>(name, value). (to_usv name, to_usv (ToString value)))
       (filter (\<lambda>(name, value). ToBoolean value \<and> value \<noteq> JArr []) parameters)"
  by (simp add: createUrlParameters_def createUrlParameters_foldl)

lemma ToBoolean_iff:
  "ToBoolean value \<longleftrightarrow>
     value \<notin> {JUndefined, JNull, JStr [], JNum JsNaN, JNum (JsZero False), JNum (JsZero True),
               JBool False}"
proof (cases "value")
  case (JNum x)
  then show ?thesis by (cases x) auto
qed auto

lemma filter_same_image:
  "distinct (map f ps) \<Longrightarrow> p \<in> set ps \<Longrightarrow> filter (\<lambda>q. f q = f p) ps = [p]"
proof (induction ps)
  case Nil
  then show ?case by simp
next
  case (Cons x ps)
  show ?case
  proof (cases "f x = f p")
    case True
    with Cons.prems have "x = p" by (auto simp add: image_iff)
    moreover from Cons.prems True have "filter (\<lambda>q. f q = f p) ps = []"
      by (auto simp add: filter_empty_conv image_iff)
    ultimately show ?thesis by simp
  next
    case False
    with Cons show ?thesis by auto
  qed
qed

lemma getAll_createUrlParameters:
  assumes "distinct (map (\<lambda>(k, value). to_usv k) parameters)" and "(k, value) \<in> set parameters"
  shows "getAll (createUrlParameters parameters) (to_usv k) =
           (if ToBoolean value \<and> value \<noteq> JArr [] then [to_usv (ToString value)] else [])"
proof -
  have "filter (\<lambda>(n, v). n = to_usv k) (createUrlParameters parameters) =
          map (\<lambda>(name, value). (to_usv name, to_usv (ToString value)))
            (filter (\<lambda>(n, v). ToBoolean v \<and> v \<noteq> JArr [])
               (filter (\<lambda>q. (\<lambda>(k, value). to_usv k) q = (\<lambda>(k, value). to_usv k) (k, value))
                  parameters))"
    by (simp add: createUrlParameters_eq filter_map comp_def split_def conj_commute)
  also have "filter (\<lambda>q. (\<lambda>(k, value). to_usv k) q = (\<lambda>(k, value). to_usv k) (k, value))
               parameters = [(k, value)]"
    using assms by (rule filter_same_image)
  finally show ?thesis by (simp add: getAll_def)
qed

lemma getAll_createUrlParameters_absent:
  assumes "k \<notin> (\<lambda>(k, value). to_usv k) ` set parameters"
  shows "getAll (createUrlParameters parameters) k = []"
  using assms
  by (auto simp add: getAll_def createUrlParameters_eq filter_empty_conv image_iff split_def)

lemma names_createUrlParameters:
  "map fst (createUrlParameters parameters) =
     map (\<lambda>(k, value). to_usv k)
       (filter (\<lambda>(name, value). ToBoolean value \<and> value \<noteq> JArr []) parameters)"
  by (simp add: createUrlParameters_eq split_def comp_def)

lemma distinct_createUrlParameters:
  "distinct (map (\<lambda>(k, value). to_usv k) parameters) \<Longrightarrow>
     distinct (map fst (createUrlParameters parameters))"
  by (simp add: names_createUrlParameters distinct_map_filter)

text \<open>
  C3. The query builder on an object \<open>parameters\<close> whose fields have pairwise different
  names once these are converted as \<^verbatim>\<open>URLSearchParams.append\<close> converts them: a name
  that is the name of no field has no parameter; a field whose value is
  \<^verbatim>\<open>undefined\<close>, \<^verbatim>\<open>null\<close>, the empty string, \<^verbatim>\<open>NaN\<close>, a zero or \<^verbatim>\<open>false\<close>
  has none, and neither has a field holding the empty array; a field holding a non-empty
  array has exactly one parameter, whose value is the comma-joined conversion of the
  elements; any other field has exactly one parameter, whose value is the string form of
  the field's value. The conversion of \<^verbatim>\<open>append\<close> leaves a well-formed name or value
  as it is. For every object, the parameters are those of the retained fields in
  property order, and the query string is these pairs with name and value
  percent-encoded by the urlencoded serialiser, written \<^verbatim>\<open>name=value\<close> and joined by
  \<^verbatim>\<open>&\<close>.
\<close>

theorem createUrlParameters_fields:
  assumes "distinct (map (\<lambda>(k, value). to_usv k) parameters)"
  shows "(\<forall>k. k \<notin> (\<lambda>(k, value). to_usv k) ` set parameters \<longrightarrow>
            getAll (createUrlParameters parameters) k = [])
    \<and> (\<forall>(k, value) \<in> set parameters.
          (value \<in> {JUndefined, JNull, JStr [], JNum JsNaN, JNum (JsZero False),
                     JNum (JsZero True), JBool False} \<longrightarrow>
             getAll (createUrlParameters parameters) (to_usv k) = [])
        \<and> (value = JArr [] \<longrightarrow> getAll (createUrlParameters parameters) (to_usv k) = [])
        \<and> (\<forall>xs. value = JArr xs \<and> xs \<noteq> [] \<longrightarrow>
             getAll (createUrlParameters parameters) (to_usv k) =
               [to_usv (join '',''
                  (map (\<lambda>x. if x = JUndefined \<or> x = JNull then [] else ToString x) xs))])
        \<and> (value \<notin> {JUndefined, JNull, JStr [], JNum JsNaN, JNum (JsZero False),
                     JNum (JsZero True), JBool False} \<and> (\<forall>xs. value \<noteq> JArr xs) \<longrightarrow>
             getAll (createUrlParameters parameters) (to_usv k) = [to_usv (ToString value)])
        \<and> (well_formed_utf8 k \<longrightarrow> to_usv k = k)
        \<and> (well_formed_utf8 (ToString value) \<longrightarrow> to_usv (ToString value) = ToString value))
    \<and> createUrlParameters parameters =
        map (\<lambda>(k, value). (to_usv k, to_usv (ToString value)))
          (filter (\<lambda>(k, value).
                     value \<notin> {JUndefined, JNull, JStr [], JNum JsNaN, JNum (JsZero False),
                               JNum (JsZero True), JBool False, JArr []})
             parameters)
    \<and> URLSearchParams_toString (createUrlParameters parameters) =
        join ''&''
          (map (\<lambda>(k, value).
                  urlencoded_serialize (to_usv k) @ ''='' @
                  urlencoded_serialize (to_usv (ToString value)))
             (filter (\<lambda>(k, value).
                        value \<notin> {JUndefined, JNull, JStr [], JNum JsNaN, JNum (JsZero False),
                                  JNum (JsZero True), JBool False, JArr []})
                parameters))"
proof -
  let ?F = "\<lambda>k value.
          (value \<in> {JUndefined, JNull, JStr [], JNum JsNaN, JNum (JsZero False),
                     JNum (JsZero True), JBool False} \<longrightarrow>
             getAll (createUrlParameters parameters) (to_usv k) = [])
        \<and> (value = JArr [] \<longrightarrow> getAll (createUrlParameters parameters) (to_usv k) = [])
        \<and> (\<forall>xs. value = JArr xs \<and> xs \<noteq> [] \<longrightarrow>
             getAll (createUrlParameters parameters) (to_usv k) =
               [to_usv (join '',''
                  (map (\<lambda>x. if x = JUndefined \<or> x = JNull then [] else ToString x) xs))])
        \<and> (value \<notin> {JUndefined, JNull, JStr [], JNum JsNaN, JNum (JsZero False),
                     JNum (JsZero True), JBool False} \<and> (\<forall>xs. value \<noteq> JArr xs) \<longrightarrow>
             getAll (createUrlParameters parameters) (to_usv k) = [to_usv (ToString value)])
        \<and> (well_formed_utf8 k \<longrightarrow> to_usv k = k)
        \<and> (well_formed_utf8 (ToString value) \<longrightarrow> to_usv (ToString value) = ToString value)"
  have absent: "\<forall>k. k \<notin> (\<lambda>(k, value). to_usv k) ` set parameters \<longrightarrow>
            getAll (createUrlParameters parameters) k = []"
    using getAll_createUrlParameters_absent by blast
  have field: "?F k v" if "(k, v) \<in> set parameters" for k v
  proof -
    note one = getAll_createUrlParameters[OF assms that]
    have truthy: "ToBoolean v \<longleftrightarrow>
            v \<notin> {JUndefined, JNull, JStr [], JNum JsNaN, JNum (JsZero False),
                     JNum (JsZero True), JBool False}"
      by (rule ToBoolean_iff)
    have 1: "v \<in> {JUndefined, JNull, JStr [], JNum JsNaN, JNum (JsZero False),
                     JNum (JsZero True), JBool False} \<longrightarrow>
             getAll (createUrlParameters parameters) (to_usv k) = []"
      using one truthy by simp
    have 2: "v = JArr [] \<longrightarrow> getAll (createUrlParameters parameters) (to_usv k) = []"
      using one by simp
    have 3: "\<forall>xs. v = JArr xs \<and> xs \<noteq> [] \<longrightarrow>
             getAll (createUrlParameters parameters) (to_usv k) =
               [to_usv (join '',''
                  (map (\<lambda>x. if x = JUndefined \<or> x = JNull then [] else ToString x) xs))]"
      using one by auto
    have 4: "v \<notin> {JUndefined, JNull, JStr [], JNum JsNaN, JNum (JsZero False),
                     JNum (JsZero True), JBool False} \<and> (\<forall>xs. v \<noteq> JArr xs) \<longrightarrow>
             getAll (createUrlParameters parameters) (to_usv k) = [to_usv (ToString v)]"
      using one truthy by simp
    have 5: "well_formed_utf8 k \<longrightarrow> to_usv k = k"
      by (simp add: to_usv_well_formed)
    have 6: "well_formed_utf8 (ToString v) \<longrightarrow> to_usv (ToString v) = ToString v"
      by (simp add: to_usv_well_formed)
    show ?thesis
      by (rule conjI[OF 1 conjI[OF 2 conjI[OF 3 conjI[OF 4 conjI[OF 5 6]]]]])
  qed
  have fields: "\<forall>(k, value) \<in> set parameters. ?F k value"
  proof (rule ballI)
    fix p assume p: "p \<in> set parameters"
    obtain k v where kv: "p = (k, v)" by (cases p)
    from p kv have "(k, v) \<in> set parameters" by simp
    from field[OF this] show "case p of (k, value) \<Rightarrow> ?F k value"
      unfolding kv by (simp only: prod.case)
  qed
  have keep: "(\<lambda>(k, value). ToBoolean value \<and> value \<noteq> JArr []) =
          (\<lambda>(k, value). value \<notin> {JUndefined, JNull, JStr [], JNum JsNaN, JNum (JsZero False),
                               JNum (JsZero True), JBool False, JArr []})"
    by (auto simp add: fun_eq_iff ToBoolean_iff)
  have entries: "createUrlParameters parameters =
        map (\<lambda>(k, value). (to_usv k, to_usv (ToString value)))
          (filter (\<lambda>(k, value).
                     value \<notin> {JUndefined, JNull, JStr [], JNum JsNaN, JNum (JsZero False),
                               JNum (JsZero True), JBool False, JArr []})
             parameters)"
    unfolding keep[symmetric] by (rule createUrlParameters_eq)
  have string: "URLSearchParams_toString (createUrlParameters parameters) =
        join ''&''
          (map (\<lambda>(k, value).
                  urlencoded_serialize (to_usv k) @ ''='' @
                  urlencoded_serialize (to_usv (ToString value)))
             (filter (\<lambda>(k, value).
                        value \<notin> {JUndefined, JNull, JStr [], JNum JsNaN, JNum (JsZero False),
                                  JNum (JsZero True), JBool False, JArr []})
                parameters))"
    unfolding keep[symmetric]
    by (simp add: URLSearchParams_toString_def createUrlParameters_eq split_def comp_def)
  show ?thesis
    by (rule conjI[OF absent conjI[OF fields conjI[OF entries string]]])
qed


theorem createUrlParameters_fields_witness:
  "distinct (map (\<lambda>(k, value). to_usv k)
      [(''ids'', JArr [JStr ''1'', JStr ''2'']), (''limit'', JNum (JsZero False)),
       (''q'', JStr ''a b''), (''media_filter'', JArr []), (''random'', JBool True)])
   \<and> getAll (createUrlParameters [(''ids'', JArr [JStr ''1'', JStr ''2'']),
         (''limit'', JNum (JsZero False)), (''q'', JStr ''a b''), (''media_filter'', JArr []),
         (''random'', JBool True)]) ''ids''
       = [''1,2'']
   \<and> getAll (createUrlParameters [(''ids'', JArr [JStr ''1'', JStr ''2'']),
         (''limit'', JNum (JsZero False)), (''q'', JStr ''a b''), (''media_filter'', JArr []),
         (''random'', JBool True)]) ''limit''
       = []
   \<and> getAll (createUrlParameters [(''ids'', JArr [JStr ''1'', JStr ''2'']),
         (''limit'', JNum (JsZero False)), (''q'', JStr ''a b''), (''media_filter'', JArr []),
         (''random'', JBool True)]) ''q''
       = [''a b'']
   \<and> URLSearchParams_toString (createUrlParameters [(''ids'', JArr [JStr ''1'', JStr ''2'']),
         (''limit'', JNum (JsZero False)), (''q'', JStr ''a b''), (''media_filter'', JArr []),
         (''random'', JBool True)])
       = ''ids=1%2C2&q=a+b&random=true''"
  using createUrlParameters_fields
    [of "[(''ids'', JArr [JStr ''1'', JStr ''2'']), (''limit'', JNum (JsZero False)),
          (''q'', JStr ''a b''), (''media_filter'', JArr []), (''random'', JBool True)]"]
  by (simp add: is_surrogate_def getAll_def URLSearchParams_toString_def urlencoded_serialize_def
      urlencoded_byte_def urlencoded_safe_def percent_encode_byte_def hex_digit_def)

subsection \<open>Parsing the query string\<close>

lemma well_formed_utf8_ascii:
  "\<forall>c\<in>set s. (of_char c :: nat) < 0x80 \<Longrightarrow> well_formed_utf8 s"
  by (induction s) simp_all

lemma upt_10: "[0..<10] = [0, 1, 2, 3, 4, 5, 6, 7, 8, 9::nat]"
  by (simp add: upt_rec)

lemma digit_char_ascii: "m < 10 \<Longrightarrow> (of_char (digit_char m) :: nat) < 0x80"
proof -
  assume "m < 10"
  then have "m \<in> set [0..<10]" by simp
  then show ?thesis
    unfolding upt_10 by (auto simp add: digit_char_def)
qed

lemma nat_to_string_ascii: "\<forall>c\<in>set (nat_to_string n). (of_char c :: nat) < 0x80"
proof (induction n rule: nat_to_string.induct)
  case (1 n)
  show ?case
  proof (cases "n < 10")
    case True
    with digit_char_ascii[of n] show ?thesis
      by (subst nat_to_string.simps) simp
  next
    case False
    have "n mod 10 < 10" by simp
    from digit_char_ascii[OF this] 1[OF False] False show ?thesis
      by (subst nat_to_string.simps) simp
  qed
qed

lemma decimal_toString_ascii: "\<forall>c\<in>set (decimal_toString s n). (of_char c :: nat) < 0x80"
proof -
  have takes: "\<forall>c\<in>set (take i (nat_to_string m)). (of_char c :: nat) < 0x80" for i m
    using nat_to_string_ascii[of m] by (auto dest: in_set_takeD)
  have drops: "\<forall>c\<in>set (drop i (nat_to_string m)). (of_char c :: nat) < 0x80" for i m
    using nat_to_string_ascii[of m] by (auto dest: in_set_dropD)
  show ?thesis
    unfolding decimal_toString_def Let_def
    by (simp add: ball_Un nat_to_string_ascii takes drops)
qed

lemma well_formed_utf8_Number_toString: "well_formed_utf8 (Number_toString x)"
  by (rule well_formed_utf8_ascii, cases x) (simp_all add: ball_Un decimal_toString_ascii)

lemma well_formed_utf8_true: "well_formed_utf8 ''true''"
  by (rule well_formed_utf8_ascii) simp

lemma to_usv_decode_well_formed:
  "well_formed_utf8 s \<Longrightarrow> utf8_decode (to_usv s) = s"
  by (simp add: to_usv_well_formed utf8_decode_well_formed)

lemma distinct_parsed_names:
  assumes "distinct (map (\<lambda>(k, value). utf8_decode (to_usv k)) parameters)"
  shows "distinct (map fst (urlencoded_parse (URLSearchParams_toString
           (createUrlParameters parameters))))"
proof -
  have "map fst (urlencoded_parse (URLSearchParams_toString (createUrlParameters parameters)))
        = map (\<lambda>(k, value). utf8_decode (to_usv k))
            (filter (\<lambda>(name, value). ToBoolean value \<and> value \<noteq> JArr []) parameters)"
    by (simp add: urlencoded_parse_toString createUrlParameters_eq split_def comp_def)
  with assms show ?thesis
    by (simp add: distinct_map_filter)
qed

text \<open>
  C8. Parsing the query string built from an object whose names stay distinct on the wire
  gives back, for every field that holds a non-empty scalar (a non-empty string, a
  number other than zero and NaN, or \<^verbatim>\<open>true\<close>), the string form of the value with
  every lone surrogate replaced by U+FFFD, under the name treated the same way. So a
  well-formed string comes back exactly, under a well-formed name; a number comes back
  as its decimal text and \<^verbatim>\<open>true\<close> as the text \<^verbatim>\<open>true\<close>, as strings and not as the
  number or the boolean.
\<close>

theorem query_string_round_trip:
  assumes "distinct (map (\<lambda>(k, value). utf8_decode (to_usv k)) parameters)"
    and "(k, value) \<in> set parameters"
    and "ToBoolean value"
    and "\<forall>xs. value \<noteq> JArr xs"
  shows "get_param (urlencoded_parse (URLSearchParams_toString (createUrlParameters parameters)))
           (utf8_decode (to_usv k))
           = Some (utf8_decode (to_usv (ToString value)))
       \<and> (well_formed_utf8 k \<longrightarrow>
            (\<forall>s. value = JStr s \<and> well_formed_utf8 s \<longrightarrow>
               get_param (urlencoded_parse (URLSearchParams_toString
                 (createUrlParameters parameters))) k = Some s)
          \<and> (\<forall>x. value = JNum x \<longrightarrow>
               get_param (urlencoded_parse (URLSearchParams_toString
                 (createUrlParameters parameters))) k = Some (Number_toString x))
          \<and> (value = JBool True \<longrightarrow>
               get_param (urlencoded_parse (URLSearchParams_toString
                 (createUrlParameters parameters))) k = Some ''true''))"
proof -
  let ?P = "urlencoded_parse (URLSearchParams_toString (createUrlParameters parameters))"
  from assms(2-4)
  have "(utf8_decode (to_usv k), utf8_decode (to_usv (ToString value))) \<in> set ?P"
    by (force simp add: urlencoded_parse_toString createUrlParameters_eq)
  with distinct_parsed_names[OF assms(1)]
  have "map_of ?P (utf8_decode (to_usv k)) = Some (utf8_decode (to_usv (ToString value)))"
    by (rule map_of_is_SomeI)
  then have general: "get_param ?P (utf8_decode (to_usv k))
      = Some (utf8_decode (to_usv (ToString value)))"
    by (simp add: get_param_def)
  have string: "get_param ?P k = Some s" if "well_formed_utf8 k" "value = JStr s" "well_formed_utf8 s" for s
    using general that by (simp add: to_usv_decode_well_formed)
  have number: "get_param ?P k = Some (Number_toString x)" if "well_formed_utf8 k" "value = JNum x" for x
    using general that by (simp add: to_usv_decode_well_formed well_formed_utf8_Number_toString)
  have true: "get_param ?P k = Some ''true''" if "well_formed_utf8 k" "value = JBool True"
    using general that to_usv_decode_well_formed[OF well_formed_utf8_true]
    by (simp add: to_usv_decode_well_formed del: to_usv.simps utf8_decode.simps)
  from general string number true show ?thesis
    by blast
qed

theorem query_string_round_trip_witness:
  "get_param (urlencoded_parse (URLSearchParams_toString (createUrlParameters
      [(''q'', JStr ''a&b=c d+e%/''), (''limit'', JNum (JsDecimal False 8 1)),
       (''random'', JBool True)]))) ''q''
     = Some ''a&b=c d+e%/''
   \<and> get_param (urlencoded_parse (URLSearchParams_toString (createUrlParameters
      [(''q'', JStr ''a&b=c d+e%/''), (''limit'', JNum (JsDecimal False 8 1)),
       (''random'', JBool True)]))) ''limit''
     = Some ''8''"
  using query_string_round_trip
      [of "[(''q'', JStr ''a&b=c d+e%/''), (''limit'', JNum (JsDecimal False 8 1)),
            (''random'', JBool True)]"
          "''q''" "JStr ''a&b=c d+e%/''", THEN conjunct2]
    query_string_round_trip
      [of "[(''q'', JStr ''a&b=c d+e%/''), (''limit'', JNum (JsDecimal False 8 1)),
            (''random'', JBool True)]"
          "''limit''" "JNum (JsDecimal False 8 1)", THEN conjunct2]
  by (simp add: is_surrogate_def decimal_toString_def nat_to_string.simps digit_char_def)

text \<open>
  A string that holds a lone surrogate, here U+D800, does not come back: the parser
  returns U+FFFD in its place. And the number 8 comes back as the string \<^verbatim>\<open>8\<close>.
\<close>

theorem query_string_round_trip_counterexample:
  "ToBoolean (JStr [CHR 0xED, CHR 0xA0, CHR 0x80])
   \<and> get_param (urlencoded_parse (URLSearchParams_toString (createUrlParameters
        [(''q'', JStr [CHR 0xED, CHR 0xA0, CHR 0x80])]))) ''q''
       = Some [CHR 0xEF, CHR 0xBF, CHR 0xBD]
   \<and> [CHR 0xEF, CHR 0xBF, CHR 0xBD] \<noteq> [CHR 0xED, CHR 0xA0, CHR 0x80]
   \<and> map_option JStr (get_param (urlencoded_parse (URLSearchParams_toString
        (createUrlParameters [(''limit'', JNum (JsDecimal False 8 1))]))) ''limit'')
       = Some (JStr ''8'')
   \<and> JStr ''8'' \<noteq> JNum (JsDecimal False 8 1)"
  by (simp add: urlencoded_parse_toString createUrlParameters_eq get_param_def
      is_surrogate_def in_range_def replacement_character_def lead_byte_def numeral_2_eq_2
      decimal_toString_def nat_to_string.simps digit_char_def)

section \<open>Properties of the invoker\<close>

text \<open>
  C2. When the transport delivers a response: if its body does not decode, the call fails
  with the decoding error, whatever the status. If the body decodes to \<open>jsonResponse\<close>
  and the status is in 200 to 299, the call returns \<open>jsonResponse\<close> itself. If the
  body decodes and the status is outside 200 to 299, then for the body \<^verbatim>\<open>null\<close> the
  call fails with a \<^verbatim>\<open>TypeError\<close>, and for every other body it fails with the remote
  API error constructed from the \<^verbatim>\<open>error\<close> property of the body, which is
  \<^verbatim>\<open>undefined\<close> unless the body is an object with that field; for an error envelope
  \<^verbatim>\<open>{ error: e }\<close> the code and the message of that error are the \<^verbatim>\<open>code\<close> and
  \<^verbatim>\<open>message\<close> fields of \<open>e\<close>.
\<close>

theorem fetchTenorApi_discriminates_on_status:
  assumes "fetch p = Inr response"
  shows "(\<forall>e. json_body response = Inl e \<longrightarrow> fetchTenorApi fetch p = Inl e)
       \<and> (\<forall>jsonResponse. json_body response = Inr jsonResponse \<longrightarrow>
            (ok response \<longrightarrow> fetchTenorApi fetch p = Inr jsonResponse)
          \<and> (\<not> ok response \<longrightarrow> jsonResponse = JsonNull \<longrightarrow>
                fetchTenorApi fetch p = Inl TypeError)
          \<and> (\<not> ok response \<longrightarrow> jsonResponse \<noteq> JsonNull \<longrightarrow>
                fetchTenorApi fetch p =
                  Inl (GoogleApiError
                         (case jsonResponse of
                            JsonObject envelope \<Rightarrow> map_of envelope ''error''
                          | _ \<Rightarrow> None)))
          \<and> (\<forall>envelope e. \<not> ok response \<longrightarrow> jsonResponse = JsonObject envelope \<longrightarrow>
                map_of envelope ''error'' = Some (JsonObject e) \<longrightarrow>
                fetchTenorApi fetch p = Inl (GoogleApiError (Some (JsonObject e))) \<and>
                GoogleApiError_code (GoogleApiError (Some (JsonObject e))) = map_of e ''code'' \<and>
                GoogleApiError_message (GoogleApiError (Some (JsonObject e)))
                  = map_of e ''message''))"
proof -
  have undecoded: "fetchTenorApi fetch p = Inl e" if "json_body response = Inl e" for e
    using assms that by (simp add: fetchTenorApi_def)
  have success: "fetchTenorApi fetch p = Inr jsonResponse"
    if "json_body response = Inr jsonResponse" "ok response" for jsonResponse
    using assms that by (simp add: fetchTenorApi_def)
  have null: "fetchTenorApi fetch p = Inl TypeError"
    if "json_body response = Inr JsonNull" "\<not> ok response"
    using assms that by (simp add: fetchTenorApi_def)
  have failure: "fetchTenorApi fetch p =
      Inl (GoogleApiError
             (case jsonResponse of JsonObject envelope \<Rightarrow> map_of envelope ''error'' | _ \<Rightarrow> None))"
    if "json_body response = Inr jsonResponse" "\<not> ok response" "jsonResponse \<noteq> JsonNull"
    for jsonResponse
    using assms that by (cases jsonResponse) (simp_all add: fetchTenorApi_def)
  have envelope: "fetchTenorApi fetch p = Inl (GoogleApiError (Some (JsonObject e))) \<and>
      GoogleApiError_code (GoogleApiError (Some (JsonObject e))) = map_of e ''code'' \<and>
      GoogleApiError_message (GoogleApiError (Some (JsonObject e))) = map_of e ''message''"
    if "json_body response = Inr (JsonObject envelope)" "\<not> ok response"
      "map_of envelope ''error'' = Some (JsonObject e)"
    for envelope e
    using assms that
    by (simp add: fetchTenorApi_def GoogleApiError_code_def GoogleApiError_message_def)
  show ?thesis
  proof (intro conjI allI impI)
    fix e assume "json_body response = Inl e"
    then show "fetchTenorApi fetch p = Inl e" by (rule undecoded)
  next
    fix jsonResponse assume "json_body response = Inr jsonResponse" "ok response"
    then show "fetchTenorApi fetch p = Inr jsonResponse" by (rule success)
  next
    fix jsonResponse :: "'a json"
    assume "json_body response = Inr jsonResponse" "\<not> ok response" "jsonResponse = JsonNull"
    then show "fetchTenorApi fetch p = Inl TypeError" using null by simp
  next
    fix jsonResponse
    assume "json_body response = Inr jsonResponse" "\<not> ok response" "jsonResponse \<noteq> JsonNull"
    then show "fetchTenorApi fetch p =
      Inl (GoogleApiError
             (case jsonResponse of JsonObject envelope \<Rightarrow> map_of envelope ''error'' | _ \<Rightarrow> None))"
      by (rule failure)
  next
    fix jsonResponse envelope e
    assume "json_body response = Inr jsonResponse" "\<not> ok response"
      "jsonResponse = JsonObject envelope" "map_of envelope ''error'' = Some (JsonObject e)"
    with envelope[of envelope e]
    show "fetchTenorApi fetch p = Inl (GoogleApiError (Some (JsonObject e)))"
      by simp
  next
    fix e :: "(string \<times> 'a json) list"
    show "GoogleApiError_code (GoogleApiError (Some (JsonObject e))) = map_of e ''code''"
      by (simp add: GoogleApiError_code_def)
  next
    fix e :: "(string \<times> 'a json) list"
    show "GoogleApiError_message (GoogleApiError (Some (JsonObject e))) = map_of e ''message''"
      by (simp add: GoogleApiError_message_def)
  qed
qed

theorem fetchTenorApi_discriminates_on_status_witness:
  "fetchTenorApi
     (\<lambda>p. Inr \<lparr>status = 400, json_body = Inr (JsonObject [(''error'',
        JsonObject [(''code'', JsonString ''BAD_REQUEST''), (''message'', JsonString ''x'')])])\<rparr>)
     ''search?q=a''
     = (Inl (GoogleApiError (Some (JsonObject
         [(''code'', JsonString ''BAD_REQUEST''), (''message'', JsonString ''x'')])))
        :: int error + int json)
   \<and> GoogleApiError_code (GoogleApiError (Some (JsonObject
         [(''code'', JsonString ''BAD_REQUEST''), (''message'', JsonString ''x'')])) :: int error)
     = Some (JsonString ''BAD_REQUEST'')
   \<and> GoogleApiError_message (GoogleApiError (Some (JsonObject
         [(''code'', JsonString ''BAD_REQUEST''), (''message'', JsonString ''x'')])) :: int error)
     = Some (JsonString ''x'')
   \<and> fetchTenorApi
     (\<lambda>p. Inr \<lparr>status = 200, json_body = Inr (JsonObject
        [(''results'', JsonArray []), (''next'', JsonString [])])\<rparr>)
     ''search?q=a''
     = (Inr (JsonObject [(''results'', JsonArray []), (''next'', JsonString [])])
        :: int error + int json)"
  using fetchTenorApi_discriminates_on_status
      [of "\<lambda>p. Inr \<lparr>status = 400, json_body = Inr (JsonObject [(''error'',
             JsonObject [(''code'', JsonString ''BAD_REQUEST''),
                         (''message'', JsonString ''x'')])])\<rparr>"
          "''search?q=a''"
          "\<lparr>status = 400, json_body = Inr (JsonObject [(''error'',
             JsonObject [(''code'', JsonString ''BAD_REQUEST''),
                         (''message'', JsonString ''x'')])] :: int json)\<rparr>"]
    fetchTenorApi_discriminates_on_status
      [of "\<lambda>p. Inr \<lparr>status = 200, json_body = Inr (JsonObject
             [(''results'', JsonArray []), (''next'', JsonString [])])\<rparr>"
          "''search?q=a''"
          "\<lparr>status = 200, json_body = Inr (JsonObject
             [(''results'', JsonArray []), (''next'', JsonString [])] :: int json)\<rparr>"]
  by (simp add: ok_def)

text \<open>
  A failure status does not always give a remote API error: with the body \<^verbatim>\<open>null\<close>
  reading its \<^verbatim>\<open>error\<close> property throws a \<^verbatim>\<open>TypeError\<close>, and with a body that is
  not JSON the call fails with the error of \<^verbatim>\<open>response.json()\<close>.
\<close>

theorem fetchTenorApi_null_body_counterexample:
  "\<not> ok \<lparr>status = 404, json_body = (Inr JsonNull :: int error + int json)\<rparr>
   \<and> fetchTenorApi (\<lambda>p. Inr \<lparr>status = 404, json_body = Inr JsonNull\<rparr>) ''search?q=a''
       = (Inl TypeError :: int error + int json)
   \<and> \<not> ok \<lparr>status = 502, json_body = (Inl JsonParseError :: int error + int json)\<rparr>
   \<and> fetchTenorApi (\<lambda>p. Inr \<lparr>status = 502, json_body = Inl JsonParseError\<rparr>) ''search?q=a''
       = (Inl JsonParseError :: int error + int json)"
  by (simp add: fetchTenorApi_def ok_def)

text \<open>
  C7. When the transport answers the share registration with a success status and an
  envelope whose \<^verbatim>\<open>status\<close> field is the boolean \<open>b\<close>, the call returns \<open>b\<close>, not
  the envelope.
\<close>

theorem registerGifShareEvent_returns_status:
  assumes "\<And>p. fetch p = Inr response"
    and "ok response"
    and "json_body response = Inr (JsonObject envelope)"
    and "map_of envelope ''status'' = Some (JsonBool b)"
  shows "registerGifShareEvent fetch this gifId parameters = Inr (Some (JsonBool b))"
  using assms
  by (simp add: registerGifShareEvent_def fetchTenorApiEndpoint_def fetchTenorApi_def)

theorem registerGifShareEvent_returns_status_witness:
  "registerGifShareEvent
     (\<lambda>p. Inr \<lparr>status = 200, json_body = Inr (JsonObject [(''status'', JsonBool True)])\<rparr>)
     \<lparr>key = ''K'', options = None\<rparr> ''16989471141791455574'' None
   = Inr (Some (JsonBool True :: int json))"
  using registerGifShareEvent_returns_status
      [of "\<lambda>p. Inr \<lparr>status = 200, json_body = Inr (JsonObject [(''status'', JsonBool True)])\<rparr>"
          "\<lparr>status = 200, json_body = Inr (JsonObject [(''status'', JsonBool True)])\<rparr>"
          "[(''status'', JsonBool True)]" True]
  by (simp add: ok_def)

section \<open>Properties of objects\<close>

lemma map_of_define_property:
  "map_of (define_property ps k v) = (map_of ps)(k \<mapsto> v)"
  by (induction ps) (auto simp add: fun_eq_iff)

lemma keys_define_property:
  "fst ` set (define_property ps k v) = insert k (fst ` set ps)"
  by (simp add: dom_map_of_conv_image_fst[symmetric] map_of_define_property)

lemma distinct_define_property:
  "distinct (map fst ps) \<Longrightarrow> distinct (map fst (define_property ps k v))"
  by (induction ps) (auto simp add: keys_define_property)

lemma define_property_fresh:
  "k \<notin> fst ` set ps \<Longrightarrow> define_property ps k v = ps @ [(k, v)]"
  by (induction ps) auto

lemma map_of_rev_distinct:
  "distinct (map fst ps) \<Longrightarrow> map_of (rev ps) = map_of ps"
proof (induction ps)
  case Nil
  show ?case by simp
next
  case (Cons p ps)
  obtain k v where p: "p = (k, v)" by (cases p)
  from Cons.prems p have "k \<notin> dom (map_of ps)"
    by (simp add: dom_map_of_conv_image_fst)
  then have "map_of ps k = None" by auto
  then have "[k \<mapsto> v] ++ map_of ps = (map_of ps)(k \<mapsto> v)"
    by (auto simp add: fun_eq_iff map_add_def split: option.splits)
  with Cons p show ?case by simp
qed

lemma map_of_spread_rev:
  "map_of (spread literal source) = map_of literal ++ map_of (rev source)"
  unfolding spread_def
proof (induction source arbitrary: literal)
  case Nil
  show ?case by simp
next
  case (Cons p source)
  obtain k v where p: "p = (k, v)" by (cases p)
  have "map_of (foldl (\<lambda>acc (k, v). define_property acc k v) literal (p # source))
          = map_of (define_property literal k v) ++ map_of (rev source)"
    using Cons[of "define_property literal k v"] p by simp
  also have "\<dots> = (map_of literal)(k \<mapsto> v) ++ map_of (rev source)"
    by (simp only: map_of_define_property)
  also have "\<dots> = map_of literal ++ ([k \<mapsto> v] ++ map_of (rev source))"
    by (auto simp add: fun_eq_iff map_add_def split: option.splits)
  also have "[k \<mapsto> v] ++ map_of (rev source) = map_of (rev (p # source))"
    using p by simp
  finally show ?case by simp
qed

lemma map_of_spread:
  "distinct (map fst source) \<Longrightarrow> map_of (spread literal source) = map_of literal ++ map_of source"
  by (simp add: map_of_spread_rev map_of_rev_distinct)

lemma distinct_spread:
  "distinct (map fst literal) \<Longrightarrow> distinct (map fst (spread literal source))"
  unfolding spread_def
proof (induction source arbitrary: literal)
  case Nil
  then show ?case by simp
next
  case (Cons p source)
  obtain k v where p: "p = (k, v)" by (cases p)
  with Cons show ?case by (simp add: distinct_define_property)
qed

lemma map_of_spread_optional:
  "distinct_keys source \<Longrightarrow>
     map_of (spread_optional literal source) = map_of literal ++ own_properties source"
  by (cases source) (simp_all add: spread_optional_def own_properties_def distinct_keys_def map_of_spread)

lemma distinct_spread_optional:
  "distinct (map fst literal) \<Longrightarrow> distinct (map fst (spread_optional literal source))"
  by (cases source) (simp_all add: spread_optional_def distinct_spread)

text \<open>
  C6. The combined parameters are the merge of three layers, a later layer overriding an
  earlier one: the access key under \<^verbatim>\<open>key\<close>, the client-wide options, the per-call
  parameters. A field of the per-call parameters has their value; a field of the options
  alone has the options' value; any other field is \<^verbatim>\<open>key\<close> with the access key, or
  absent. The result is an object again.
\<close>

theorem combineParameters_layers:
  assumes "distinct_keys (options this)" and "distinct_keys parameters"
  shows "map_of (combineParameters this parameters) =
           [''key'' \<mapsto> JStr (key this)] ++ own_properties (options this) ++ own_properties parameters
       \<and> (\<forall>k v. own_properties parameters k = Some v \<longrightarrow>
             map_of (combineParameters this parameters) k = Some v)
       \<and> (\<forall>k v. own_properties parameters k = None \<and> own_properties (options this) k = Some v \<longrightarrow>
             map_of (combineParameters this parameters) k = Some v)
       \<and> (\<forall>k. own_properties parameters k = None \<and> own_properties (options this) k = None \<longrightarrow>
             map_of (combineParameters this parameters) k =
               (if k = ''key'' then Some (JStr (key this)) else None))
       \<and> distinct (map fst (combineParameters this parameters))"
proof -
  have eq: "map_of (combineParameters this parameters) =
           [''key'' \<mapsto> JStr (key this)] ++ own_properties (options this) ++ own_properties parameters"
    using assms by (simp add: combineParameters_def map_of_spread_optional)
  have "distinct (map fst (combineParameters this parameters))"
    by (simp add: combineParameters_def distinct_spread_optional)
  with eq show ?thesis
    by (auto simp add: map_add_def split: option.splits)
qed

theorem combineParameters_layers_witness:
  "map_of (combineParameters
       \<lparr>key = ''K'', options = Some [(''clientKey'', JStr ''app''), (''country'', JStr ''US'')]\<rparr>
       (Some [(''country'', JStr ''PH''), (''limit'', JNum (JsDecimal False 8 1))])) ''country'' = Some (JStr ''PH'')
   \<and> map_of (combineParameters
       \<lparr>key = ''K'', options = Some [(''clientKey'', JStr ''app''), (''country'', JStr ''US'')]\<rparr>
       (Some [(''country'', JStr ''PH''), (''limit'', JNum (JsDecimal False 8 1))])) ''clientKey'' = Some (JStr ''app'')
   \<and> map_of (combineParameters
       \<lparr>key = ''K'', options = Some [(''clientKey'', JStr ''app''), (''country'', JStr ''US'')]\<rparr>
       (Some [(''country'', JStr ''PH''), (''limit'', JNum (JsDecimal False 8 1))])) ''key'' = Some (JStr ''K'')
   \<and> map_of (combineParameters
       \<lparr>key = ''K'', options = Some [(''clientKey'', JStr ''app''), (''country'', JStr ''US'')]\<rparr>
       (Some [(''country'', JStr ''PH''), (''limit'', JNum (JsDecimal False 8 1))])) ''limit'' = Some (JNum (JsDecimal False 8 1))"
  using combineParameters_layers
      [of "\<lparr>key = ''K'', options = Some [(''clientKey'', JStr ''app''), (''country'', JStr ''US'')]\<rparr>"
          "Some [(''country'', JStr ''PH''), (''limit'', JNum (JsDecimal False 8 1))]"]
  by (simp add: distinct_keys_def own_properties_def)

section \<open>Properties of the normaliser\<close>

lemma distinct_newParameterNames:
  "distinct (map fst newParameterNames)" "distinct (map snd newParameterNames)"
  by (simp_all add: newParameterNames_def)

lemma wire_names_not_idiomatic:
  "w \<in> snd ` set newParameterNames \<Longrightarrow> w \<notin> fst ` set newParameterNames"
  by (auto simp add: newParameterNames_def)

lemma proto_not_in_table:
  "''__proto__'' \<notin> fst ` set newParameterNames" "''__proto__'' \<notin> snd ` set newParameterNames"
  by (simp_all add: newParameterNames_def)

lemma newName_table:
  "(k, w) \<in> set newParameterNames \<Longrightarrow> newName k = w"
  by (simp add: newName_def map_of_is_SomeI[OF distinct_newParameterNames(1)])

lemma newName_other:
  "k \<notin> fst ` set newParameterNames \<Longrightarrow> newName k = k"
  by (simp add: newName_def map_of_eq_None_iff[THEN iffD2])

lemma newName_cases:
  obtains (renamed) "(k, newName k) \<in> set newParameterNames"
  | (kept) "k \<notin> fst ` set newParameterNames" "newName k = k"
proof (cases "map_of newParameterNames k")
  case None
  then have "newName k = k" by (simp add: newName_def)
  moreover from None have "k \<notin> fst ` set newParameterNames"
    by (simp add: map_of_eq_None_iff)
  ultimately show ?thesis using kept by blast
next
  case (Some w)
  then have "(k, w) \<in> set newParameterNames" by (rule map_of_SomeD)
  with Some show ?thesis using renamed by (simp add: newName_def)
qed

lemma newName_not_idiomatic:
  "newName k \<notin> fst ` set newParameterNames"
proof (cases k rule: newName_cases)
  case renamed
  then have "newName k \<in> snd ` set newParameterNames" by force
  then show ?thesis by (rule wire_names_not_idiomatic)
next
  case kept
  then show ?thesis by simp
qed

lemma newName_proto:
  "newName k = ''__proto__'' \<longleftrightarrow> k = ''__proto__''"
proof (cases k rule: newName_cases)
  case renamed
  then have "newName k \<in> snd ` set newParameterNames" "k \<in> fst ` set newParameterNames"
    by force+
  with proto_not_in_table show ?thesis by metis
next
  case kept
  then show ?thesis by simp
qed

lemma same_snd_distinct:
  "distinct (map snd xs) \<Longrightarrow> (a, w) \<in> set xs \<Longrightarrow> (b, w) \<in> set xs \<Longrightarrow> a = b"
  by (induction xs) force+

lemma newName_wire:
  assumes "(k, w) \<in> set newParameterNames" and "newName k' = w"
  shows "k' = k \<or> k' = w"
proof (cases k' rule: newName_cases)
  case renamed
  with assms have "k' = k"
    using same_snd_distinct[OF distinct_newParameterNames(2)] by metis
  then show ?thesis ..
next
  case kept
  with assms show ?thesis by simp
qed

lemma map_of_unique:
  assumes "(k, v) \<in> set xs" and "\<forall>v'. (k, v') \<in> set xs \<longrightarrow> v' = v"
  shows "map_of xs k = Some v"
proof -
  from assms(1) have "k \<in> fst ` set xs" by force
  then have "map_of xs k \<noteq> None" by (simp add: map_of_eq_None_iff)
  then obtain v' where v': "map_of xs k = Some v'" by blast
  then have "(k, v') \<in> set xs" by (rule map_of_SomeD)
  with assms(2) v' show ?thesis by simp
qed

text \<open>The pairs the loop of \<open>renameParameters\<close> assigns, in order.\<close>

lemma renameParameters_foldl:
  "map_of (foldl (\<lambda>renamedParameters (currentName, value).
              Object_assign renamedParameters [(newName currentName, value)]) acc parameters)
   = map_of acc ++
     map_of (rev (map (\<lambda>(k, v). (newName k, v))
                    (filter (\<lambda>(k, v). k \<noteq> ''__proto__'') parameters)))"
proof (induction parameters arbitrary: acc)
  case Nil
  show ?case by simp
next
  case (Cons p parameters)
  obtain k v where p: "p = (k, v)" by (cases p)
  let ?rest = "map_of (rev (map (\<lambda>(k, v). (newName k, v))
                    (filter (\<lambda>(k, v). k \<noteq> ''__proto__'') parameters)))"
  show ?case
  proof (cases "k = ''__proto__''")
    case True
    then have "Object_assign acc [(newName k, v)] = acc"
      by (simp add: Object_assign_def set_property_def newName_proto)
    with Cons[of acc] p True show ?thesis by simp
  next
    case False
    then have "Object_assign acc [(newName k, v)] = define_property acc (newName k) v"
      by (simp add: Object_assign_def set_property_def newName_proto)
    then have "map_of (foldl (\<lambda>renamedParameters (currentName, value).
              Object_assign renamedParameters [(newName currentName, value)]) acc (p # parameters))
          = map_of (define_property acc (newName k) v) ++ ?rest"
      using Cons[of "define_property acc (newName k) v"] p by simp
    also have "\<dots> = (map_of acc)(newName k \<mapsto> v) ++ ?rest"
      by (simp only: map_of_define_property)
    also have "\<dots> = map_of acc ++ ([newName k \<mapsto> v] ++ ?rest)"
      by (auto simp add: fun_eq_iff map_add_def split: option.splits)
    also have "[newName k \<mapsto> v] ++ ?rest =
        map_of (rev (map (\<lambda>(k, v). (newName k, v))
                    (filter (\<lambda>(k, v). k \<noteq> ''__proto__'') (p # parameters))))"
      using p False by simp
    finally show ?thesis .
  qed
qed

lemma map_of_renameParameters:
  "map_of (renameParameters parameters) =
     map_of (rev (map (\<lambda>(k, v). (newName k, v))
                    (filter (\<lambda>(k, v). k \<noteq> ''__proto__'') parameters)))"
  by (simp add: renameParameters_def renameParameters_foldl)

lemma distinct_set_property:
  "distinct (map fst ps) \<Longrightarrow> distinct (map fst (set_property ps k v))"
  by (simp add: set_property_def distinct_define_property)

lemma distinct_renameParameters: "distinct (map fst (renameParameters parameters))"
proof -
  have "distinct (map fst acc) \<Longrightarrow>
        distinct (map fst (foldl (\<lambda>renamedParameters (currentName, value).
              Object_assign renamedParameters [(newName currentName, value)]) acc parameters))"
    for acc
  proof (induction parameters arbitrary: acc)
    case Nil
    then show ?case by simp
  next
    case (Cons p parameters)
    obtain k v where p: "p = (k, v)" by (cases p)
    from Cons.prems have "distinct (map fst (Object_assign acc [(newName k, v)]))"
      by (simp add: Object_assign_def distinct_set_property)
    from Cons.IH[OF this] p show ?case by simp
  qed
  then show ?thesis by (simp add: renameParameters_def)
qed

lemma keys_renameParameters:
  "fst ` set (renameParameters parameters) =
     newName ` (fst ` set parameters - {''__proto__''})"
proof -
  have "fst ` set (renameParameters parameters) = dom (map_of (renameParameters parameters))"
    by (simp add: dom_map_of_conv_image_fst)
  also have "\<dots> = fst ` set (map (\<lambda>(k, v). (newName k, v))
                    (filter (\<lambda>(k, v). k \<noteq> ''__proto__'') parameters))"
    by (simp only: map_of_renameParameters dom_map_of_conv_image_fst set_rev)
  also have "\<dots> = newName ` (fst ` set parameters - {''__proto__''})"
    by (force simp add: image_iff)
  finally show ?thesis .
qed

lemma renamed_pair_origin:
  assumes "(w, v) \<in> set (rev (map (\<lambda>(k, v). (newName k, v))
                    (filter (\<lambda>(k, v). k \<noteq> ''__proto__'') parameters)))"
  obtains k where "(k, v) \<in> set parameters" and "newName k = w" and "k \<noteq> ''__proto__''"
  using assms by auto

text \<open>
  C4, with the side conditions it needs. On an object \<open>parameters\<close>: a field whose name is in the rename table
  appears under its wire name with its value unchanged, provided the object has no field
  already named by that wire name; no name of the rename table is a key of the result; a
  name outside the table other than \<^verbatim>\<open>__proto__\<close> has in the result what it has in
  the object, provided the object has no field that is renamed to it.
\<close>

theorem renameParameters_fields:
  assumes "distinct (map fst parameters)"
  shows "(\<forall>(k, w) \<in> set newParameterNames. \<forall>v.
            (k, v) \<in> set parameters \<longrightarrow> w \<notin> fst ` set parameters \<longrightarrow>
            map_of (renameParameters parameters) w = Some v)
       \<and> (\<forall>(k, w) \<in> set newParameterNames. k \<notin> fst ` set (renameParameters parameters))
       \<and> (\<forall>k. k \<notin> fst ` set newParameterNames \<longrightarrow> k \<noteq> ''__proto__'' \<longrightarrow>
            (\<forall>k'. (k', k) \<in> set newParameterNames \<longrightarrow> k' \<notin> fst ` set parameters) \<longrightarrow>
            map_of (renameParameters parameters) k = map_of parameters k)"
proof -
  have renamed: "map_of (renameParameters parameters) w = Some v"
    if table: "(k, w) \<in> set newParameterNames"
      and kv: "(k, v) \<in> set parameters" and fresh: "w \<notin> fst ` set parameters" for k w v
  proof -
    from table have "k \<in> fst ` set newParameterNames" by force
    with proto_not_in_table(1) have "k \<noteq> ''__proto__''" by metis
    with kv newName_table[OF table]
    have "(w, v) \<in> set (rev (map (\<lambda>(k, v). (newName k, v))
                    (filter (\<lambda>(k, v). k \<noteq> ''__proto__'') parameters)))"
      by force
    moreover have "v' = v"
      if "(w, v') \<in> set (rev (map (\<lambda>(k, v). (newName k, v))
                    (filter (\<lambda>(k, v). k \<noteq> ''__proto__'') parameters)))" for v'
    proof -
      from that obtain k' where k': "(k', v') \<in> set parameters" "newName k' = w"
        by (rule renamed_pair_origin)
      from newName_wire[OF table k'(2)] k'(1) fresh have "k' = k" by force
      with k'(1) kv assms show ?thesis by (metis eq_key_imp_eq_value)
    qed
    ultimately show ?thesis
      unfolding map_of_renameParameters by (intro map_of_unique) blast+
  qed
  have idiomatic: "k \<notin> fst ` set (renameParameters parameters)"
    if "(k, w) \<in> set newParameterNames" for k w
  proof -
    from that have "k \<in> fst ` set newParameterNames" by force
    with newName_not_idiomatic show ?thesis
      unfolding keys_renameParameters by blast
  qed
  have kept: "map_of (renameParameters parameters) k = map_of parameters k"
    if other: "k \<notin> fst ` set newParameterNames"
      and proto: "k \<noteq> ''__proto__''"
      and free: "\<forall>k'. (k', k) \<in> set newParameterNames \<longrightarrow> k' \<notin> fst ` set parameters" for k
  proof -
    have origin: "k' = k" if "(k', v') \<in> set parameters" "newName k' = k" for k' v'
    proof (cases k' rule: newName_cases)
      case renamed
      with that free show ?thesis by force
    next
      case kept
      with that show ?thesis by simp
    qed
    show ?thesis
    proof (cases "map_of parameters k")
      case None
      then have "k \<notin> fst ` set parameters" by (simp add: map_of_eq_None_iff)
      with origin have "k \<notin> fst ` set (renameParameters parameters)"
        unfolding keys_renameParameters by force
      then have "map_of (renameParameters parameters) k = None"
        by (simp add: map_of_eq_None_iff)
      with None show ?thesis by simp
    next
      case (Some v)
      then have kv: "(k, v) \<in> set parameters" by (rule map_of_SomeD)
      with proto newName_other[OF other]
      have "(k, v) \<in> set (rev (map (\<lambda>(k, v). (newName k, v))
                      (filter (\<lambda>(k, v). k \<noteq> ''__proto__'') parameters)))"
        by force
      moreover have "v' = v"
        if "(k, v') \<in> set (rev (map (\<lambda>(k, v). (newName k, v))
                      (filter (\<lambda>(k, v). k \<noteq> ''__proto__'') parameters)))" for v'
      proof -
        from that obtain k' where k': "(k', v') \<in> set parameters" "newName k' = k"
          by (rule renamed_pair_origin)
        with origin have "k' = k" by blast
        with k'(1) kv assms show ?thesis by (metis eq_key_imp_eq_value)
      qed
      ultimately have "map_of (renameParameters parameters) k = Some v"
        unfolding map_of_renameParameters by (intro map_of_unique) blast+
      with Some show ?thesis by simp
    qed
  qed
  from renamed idiomatic kept show ?thesis
    by (intro conjI ballI) (simp_all add: split_def, (metis prod.collapse)+)
qed

theorem renameParameters_fields_witness:
  "distinct (map fst [(''searchTerm'', JStr ''excited''), (''limit'', JNum (JsDecimal False 8 1)),
                      (''clientKey'', JStr ''app'')])
   \<and> map_of (renameParameters [(''searchTerm'', JStr ''excited''), (''limit'', JNum (JsDecimal False 8 1)),
                      (''clientKey'', JStr ''app'')]) ''q'' = Some (JStr ''excited'')
   \<and> map_of (renameParameters [(''searchTerm'', JStr ''excited''), (''limit'', JNum (JsDecimal False 8 1)),
                      (''clientKey'', JStr ''app'')]) ''client_key'' = Some (JStr ''app'')
   \<and> ''searchTerm'' \<notin> fst ` set (renameParameters [(''searchTerm'', JStr ''excited''),
                      (''limit'', JNum (JsDecimal False 8 1)), (''clientKey'', JStr ''app'')])
   \<and> map_of (renameParameters [(''searchTerm'', JStr ''excited''), (''limit'', JNum (JsDecimal False 8 1)),
                      (''clientKey'', JStr ''app'')]) ''limit'' = Some (JNum (JsDecimal False 8 1))"
  using renameParameters_fields
    [of "[(''searchTerm'', JStr ''excited''), (''limit'', JNum (JsDecimal False 8 1)), (''clientKey'', JStr ''app'')]"]
  by (simp add: newParameterNames_def)

text \<open>
  Without the side conditions: an object that has both \<^verbatim>\<open>searchTerm\<close> and \<^verbatim>\<open>q\<close>
  keeps one field \<^verbatim>\<open>q\<close>, with the value of whichever came last, and a field
  \<^verbatim>\<open>__proto__\<close> is not copied.
\<close>

theorem renameParameters_collision_counterexample:
  "renameParameters [(''searchTerm'', JStr ''a''), (''q'', JStr ''b'')] = [(''q'', JStr ''b'')]
   \<and> map_of (renameParameters [(''searchTerm'', JStr ''a''), (''q'', JStr ''b'')]) ''q''
       \<noteq> Some (JStr ''a'')
   \<and> renameParameters [(''q'', JStr ''b''), (''searchTerm'', JStr ''a'')] = [(''q'', JStr ''a'')]
   \<and> map_of (renameParameters [(''q'', JStr ''b''), (''searchTerm'', JStr ''a'')]) ''q''
       \<noteq> map_of [(''q'', JStr ''b''), (''searchTerm'', JStr ''a'')] ''q''
   \<and> renameParameters [(''__proto__'', JStr ''x'')] = []"
  by (simp add: renameParameters_def Object_assign_def set_property_def newName_def
      newParameterNames_def)

section \<open>Properties of the client\<close>

text \<open>
  C1. With the access key \<^verbatim>\<open>K\<close> and the client-wide default \<^verbatim>\<open>clientKey\<close>, on a
  transport that fails with the path it was asked for: the share registration requests
  \<^verbatim>\<open>registershare?id=1\<close>, with neither the access key nor the default, where the
  fetch by identifiers requests \<^verbatim>\<open>posts?key=K&client_key=app&ids=1\<close>. The share
  registration does the same for any two clients: it reads neither field of the client.
\<close>

theorem registerGifShareEvent_omits_key:
  "registerGifShareEvent (\<lambda>p. Inl (TransportError p))
     \<lparr>key = ''K'', options = Some [(''clientKey'', JStr ''app'')]\<rparr> ''1'' None
     = (Inl (TransportError ''registershare?id=1'') :: int error + int json option)
   \<and> getGifsById (\<lambda>p. Inl (TransportError p))
     \<lparr>key = ''K'', options = Some [(''clientKey'', JStr ''app'')]\<rparr> [''1''] None
     = (Inl (TransportError ''posts?key=K&client_key=app&ids=1'') :: int error + int json)
   \<and> registerGifShareEvent fetch this gifId parameters =
     registerGifShareEvent fetch this' gifId parameters"
  by (simp add: registerGifShareEvent_def getGifsById_def fetchTenorApiEndpoint_def
      fetchTenorApi_def combineParameters_def spread_optional_def spread_def
      renameParameters_def Object_assign_def set_property_def newName_def newParameterNames_def
      createUrlParameters_def append_param_def is_surrogate_def URLSearchParams_toString_def
      urlencoded_serialize_def urlencoded_byte_def urlencoded_safe_def)

text \<open>
  C5, with the access key in the request. The search by category requests the
  descriptor's path, then \<^verbatim>\<open>&\<close>, then the serialised normalised merge of the access
  key, the client-wide options and the per-call parameters. For the path
  \<^verbatim>\<open>search?q=excited\<close>, no client-wide options and the parameters \<^verbatim>\<open>{limit: 8}\<close>
  the request is \<^verbatim>\<open>search?q=excited&key=<access key>&limit=8\<close>, and
  \<^verbatim>\<open>search?q=excited&limit=8\<close> when the access key is the empty string. The access
  key is percent-encoded as it is when it is well formed, and with U+FFFD for every
  lone surrogate otherwise.
\<close>

theorem getGifsByCategory_request:
  "getGifsByCategory fetch this category parameters =
     fetchTenorApi fetch
       (path category @ ''&'' @
        URLSearchParams_toString
          (createUrlParameters (renameParameters (combineParameters this parameters))))
   \<and> getGifsByCategory fetch \<lparr>key = accessKey, options = None\<rparr>
       (category\<lparr>path := ''search?q=excited''\<rparr>)
       (Some [(''limit'', JNum (JsDecimal False 8 1))]) =
     fetchTenorApi fetch
       (''search?q=excited&'' @
        (if accessKey = [] then ''limit=8''
         else ''key='' @ urlencoded_serialize (to_usv accessKey) @ ''&limit=8''))
   \<and> (well_formed_utf8 accessKey \<longrightarrow>
       getGifsByCategory fetch \<lparr>key = accessKey, options = None\<rparr>
         (category\<lparr>path := ''search?q=excited''\<rparr>)
         (Some [(''limit'', JNum (JsDecimal False 8 1))]) =
       fetchTenorApi fetch
         (''search?q=excited&'' @
          (if accessKey = [] then ''limit=8''
           else ''key='' @ urlencoded_serialize accessKey @ ''&limit=8'')))"
proof -
  have request: "getGifsByCategory fetch \<lparr>key = accessKey, options = None\<rparr>
       (category\<lparr>path := ''search?q=excited''\<rparr>)
       (Some [(''limit'', JNum (JsDecimal False 8 1))]) =
     fetchTenorApi fetch
       (''search?q=excited&'' @
        (if accessKey = [] then ''limit=8''
         else ''key='' @ urlencoded_serialize (to_usv accessKey) @ ''&limit=8''))"
    by (simp add: getGifsByCategory_def combineParameters_def spread_optional_def spread_def
        renameParameters_def Object_assign_def set_property_def newName_def newParameterNames_def
        createUrlParameters_def append_param_def is_surrogate_def URLSearchParams_toString_def
        decimal_toString_def nat_to_string.simps digit_char_def
        urlencoded_serialize_def urlencoded_byte_def urlencoded_safe_def)
  show ?thesis
  proof (intro conjI impI)
    show "getGifsByCategory fetch this category parameters =
       fetchTenorApi fetch
         (path category @ ''&'' @
          URLSearchParams_toString
            (createUrlParameters (renameParameters (combineParameters this parameters))))"
      by (simp add: getGifsByCategory_def)
  next
    show "getGifsByCategory fetch \<lparr>key = accessKey, options = None\<rparr>
       (category\<lparr>path := ''search?q=excited''\<rparr>)
       (Some [(''limit'', JNum (JsDecimal False 8 1))]) =
     fetchTenorApi fetch
       (''search?q=excited&'' @
        (if accessKey = [] then ''limit=8''
         else ''key='' @ urlencoded_serialize (to_usv accessKey) @ ''&limit=8''))"
      by (rule request)
  next
    assume "well_formed_utf8 accessKey"
    then have "to_usv accessKey = accessKey"
      by (rule to_usv_well_formed)
    with request
    show "getGifsByCategory fetch \<lparr>key = accessKey, options = None\<rparr>
       (category\<lparr>path := ''search?q=excited''\<rparr>)
       (Some [(''limit'', JNum (JsDecimal False 8 1))]) =
     fetchTenorApi fetch
       (''search?q=excited&'' @
        (if accessKey = [] then ''limit=8''
         else ''key='' @ urlencoded_serialize accessKey @ ''&limit=8''))"
      by simp
  qed
qed

theorem getGifsByCategory_request_witness:
  "getGifsByCategory (\<lambda>p. Inl (TransportError p)) \<lparr>key = ''K'', options = None\<rparr>
     \<lparr>searchterm = ''excited'', path = ''search?q=excited'', image_url = [], name = ''#excited''\<rparr>
     (Some [(''limit'', JNum (JsDecimal False 8 1))])
   = (Inl (TransportError ''search?q=excited&key=K&limit=8'') :: int error + int json)"
  using getGifsByCategory_request
    [of "\<lambda>p. Inl (TransportError p)" "\<lparr>key = ''K'', options = None\<rparr>"
        "\<lparr>searchterm = ''excited'', path = ''search?q=excited'', image_url = [],
          name = ''#excited''\<rparr>"
        "Some [(''limit'', JNum (JsDecimal False 8 1))]" "''K''", THEN conjunct2]
  by (simp add: fetchTenorApi_def urlencoded_serialize_def urlencoded_byte_def urlencoded_safe_def)

text \<open>
  With the access key \<^verbatim>\<open>K\<close> the request for the path \<^verbatim>\<open>search?q=excited\<close> and
  the parameters \<^verbatim>\<open>{limit: 8}\<close> does not end in \<^verbatim>\<open>search?q=excited&limit=8\<close>.
\<close>

theorem getGifsByCategory_example_counterexample:
  "getGifsByCategory (\<lambda>p. Inl (TransportError p)) \<lparr>key = ''K'', options = None\<rparr>
     \<lparr>searchterm = ''excited'', path = ''search?q=excited'', image_url = [], name = ''#excited''\<rparr>
     (Some [(''limit'', JNum (JsDecimal False 8 1))])
   = (Inl (TransportError ''search?q=excited&key=K&limit=8'') :: int error + int json)
   \<and> \<not> suffix ''search?q=excited&limit=8''
         (''https://tenor.googleapis.com/v2/'' @ ''search?q=excited&key=K&limit=8'')"
  by (simp add: getGifsByCategory_def fetchTenorApi_def combineParameters_def
      spread_optional_def spread_def
      renameParameters_def Object_assign_def set_property_def newName_def newParameterNames_def
      createUrlParameters_def append_param_def is_surrogate_def URLSearchParams_toString_def
      decimal_toString_def nat_to_string.simps digit_char_def
      urlencoded_serialize_def urlencoded_byte_def urlencoded_safe_def suffix_to_prefix)

section \<open>Properties of the functions on the store\<close>

lemma preserved_refl: "preserved s s"
  by (simp add: preserved_def)

lemma preserved_trans: "preserved s s' \<Longrightarrow> preserved s' s'' \<Longrightarrow> preserved s s''"
  by (auto simp add: preserved_def)

lemma preserved_new_object: "preserved s (fst (new_object s ps))"
  by (simp add: preserved_def new_object_def nth_append)

lemma preserved_append:
  "preserved s (s\<lparr>heap := heap s @ objs\<rparr>)"
  by (simp add: preserved_def nth_append)

lemma set_property_store_unfrozen:
  assumes "\<not> frozen (heap s ! target)"
  shows "set_property_store s target k v =
           Some (s\<lparr>heap := (heap s)[target :=
                    (heap s ! target)\<lparr>properties := set_property (properties (heap s ! target)) k v\<rparr>]\<rparr>)"
  using assms by (simp add: set_property_store_def set_property_def)

lemma rename_loop_unfrozen:
  assumes "target < length (heap s)" and "\<not> frozen (heap s ! target)"
  shows "rename_loop s target entries =
           Some (s\<lparr>heap := (heap s)[target :=
                    (heap s ! target)\<lparr>properties :=
                       foldl (\<lambda>renamedParameters (currentName, value).
                                Object_assign renamedParameters [(newName currentName, value)])
                         (properties (heap s ! target)) entries\<rparr>]\<rparr>)"
  using assms
proof (induction entries arbitrary: s)
  case Nil
  then show ?case by simp
next
  case (Cons e entries)
  obtain k v where e: "e = (k, v)" by (cases e)
  let ?s' = "s\<lparr>heap := (heap s)[target :=
                    (heap s ! target)\<lparr>properties :=
                       set_property (properties (heap s ! target)) (newName k) v\<rparr>]\<rparr>"
  from Cons.prems have step: "Object_assign_store s target [(newName k, v)] = Some ?s'"
    by (simp add: set_property_store_unfrozen)
  from Cons.prems have "target < length (heap ?s')" "\<not> frozen (heap ?s' ! target)"
    by simp_all
  from Cons.IH[OF this] step e Cons.prems show ?case
    by (simp add: Object_assign_def)
qed

lemma renameParameters_store_eq:
  "renameParameters_store s parameters =
     Some (s\<lparr>heap := heap s @
                [\<lparr>properties = renameParameters (Object_entries_store (fst (new_object s [])) parameters),
                  frozen = True\<rparr>]\<rparr>,
           length (heap s))"
proof -
  let ?s1 = "fst (new_object s [])"
  have "length (heap s) < length (heap ?s1)" "\<not> frozen (heap ?s1 ! length (heap s))"
    by (simp_all add: new_object_def)
  from rename_loop_unfrozen[OF this, of "Object_entries_store ?s1 parameters"]
  show ?thesis
    by (simp add: renameParameters_store_def renameParameters_def new_object_def
        Object_freeze_store_def)
qed

lemma Object_entries_store_new_object:
  "a < length (heap s) \<Longrightarrow>
     Object_entries_store (fst (new_object s ps)) a = Object_entries_store s a"
  by (simp add: Object_entries_store_def new_object_def nth_append)

lemma combineParameters_store_eq:
  "combineParameters_store s parameters =
     (s\<lparr>heap := heap s @
          [\<lparr>properties = combineParameters (client_of s) (optional_entries s parameters),
            frozen = True\<rparr>]\<rparr>,
      length (heap s))"
  by (simp add: combineParameters_store_def combineParameters_def client_of_def new_object_def
      Object_freeze_store_def)

lemma preserved_renameParameters_store:
  "\<exists>s' renamed. renameParameters_store s parameters = Some (s', renamed) \<and> preserved s s'"
  by (simp add: renameParameters_store_eq preserved_append)

lemma preserved_combineParameters_store:
  "preserved s (fst (combineParameters_store s parameters))"
  by (simp add: combineParameters_store_eq preserved_append)

lemma preserved_fetchTenorApiEndpoint_store:
  "preserved s (snd (fetchTenorApiEndpoint_store fetch s resourceName parameters))"
  by (simp add: fetchTenorApiEndpoint_store_def renameParameters_store_eq preserved_append)

lemma preserved_literal_combine_fetch:
  "preserved s
     (snd (let (s1, literal) = new_object s ps;
               (s2, combined) = combineParameters_store s1 (Some literal)
           in fetchTenorApiEndpoint_store fetch s2 resourceName combined))"
proof -
  obtain s1 literal where 1: "new_object s ps = (s1, literal)" by (cases "new_object s ps")
  obtain s2 combined where 2: "combineParameters_store s1 (Some literal) = (s2, combined)"
    by (cases "combineParameters_store s1 (Some literal)")
  from 1 have "preserved s s1" using preserved_new_object[of s ps] by simp
  moreover from 2 have "preserved s1 s2"
    using preserved_combineParameters_store[of s1 "Some literal"] by simp
  moreover have "preserved s2 (snd (fetchTenorApiEndpoint_store fetch s2 resourceName combined))"
    by (rule preserved_fetchTenorApiEndpoint_store)
  ultimately show ?thesis
    using 1 2 by (auto intro: preserved_trans)
qed

lemma preserved_combine_fetch:
  "preserved s
     (snd (let (s1, combined) = combineParameters_store s parameters
           in fetchTenorApiEndpoint_store fetch s1 resourceName combined))"
proof -
  obtain s1 combined where 1: "combineParameters_store s parameters = (s1, combined)"
    by (cases "combineParameters_store s parameters")
  then have "preserved s s1"
    using preserved_combineParameters_store[of s parameters] by simp
  moreover have "preserved s1 (snd (fetchTenorApiEndpoint_store fetch s1 resourceName combined))"
    by (rule preserved_fetchTenorApiEndpoint_store)
  ultimately show ?thesis
    using 1 by (auto intro: preserved_trans)
qed

lemma preserved_getGifsByCategory_store:
  "preserved s (snd (getGifsByCategory_store fetch s category parameters))"
proof -
  obtain s1 combined where 1: "combineParameters_store s parameters = (s1, combined)"
    by (cases "combineParameters_store s parameters")
  then have "preserved s s1"
    using preserved_combineParameters_store[of s parameters] by simp
  moreover obtain s2 renamed where 2: "renameParameters_store s1 combined = Some (s2, renamed)"
    and "preserved s1 s2"
    using preserved_renameParameters_store[of s1 combined] by blast
  ultimately show ?thesis
    using 1 by (auto simp add: getGifsByCategory_store_def intro: preserved_trans)
qed

lemma preserved_registerGifShareEvent_store:
  "preserved s (snd (registerGifShareEvent_store fetch s gifId parameters))"
proof -
  obtain s1 literal where 1:
    "new_object s (spread_optional [(''id'', JStr gifId)] (optional_entries s parameters))
       = (s1, literal)"
    by (cases "new_object s (spread_optional [(''id'', JStr gifId)] (optional_entries s parameters))")
  obtain result s2 where 2:
    "fetchTenorApiEndpoint_store fetch s1 ''registershare'' literal = (result, s2)"
    by (cases "fetchTenorApiEndpoint_store fetch s1 ''registershare'' literal")
  from 1 have "preserved s s1"
    using preserved_new_object[of s "spread_optional [(''id'', JStr gifId)] (optional_entries s parameters)"]
    by simp
  moreover from 2 have "preserved s1 s2"
    using preserved_fetchTenorApiEndpoint_store[of s1 fetch "''registershare''" literal] by simp
  ultimately have "preserved s s2" by (rule preserved_trans)
  with 1 2 show ?thesis
    by (cases result) (simp_all add: registerGifShareEvent_store_def)
qed

lemma optional_entries_append:
  "valid_reference s a \<Longrightarrow> optional_entries (s\<lparr>heap := heap s @ objs\<rparr>) a = optional_entries s a"
  by (cases a) (simp_all add: optional_entries_def valid_reference_def Object_entries_store_def
      nth_append)

lemma client_of_append:
  "valid_reference s (this_options s) \<Longrightarrow> client_of (s\<lparr>heap := heap s @ objs\<rparr>) = client_of s"
  using optional_entries_append[of s "this_options s" objs] by (simp add: client_of_def)

lemma fetchTenorApiEndpoint_store_result:
  "parameters < length (heap s) \<Longrightarrow>
     fst (fetchTenorApiEndpoint_store fetch s resourceName parameters) =
       fetchTenorApiEndpoint fetch resourceName (Object_entries_store s parameters)"
  by (simp add: fetchTenorApiEndpoint_store_def fetchTenorApiEndpoint_def
      renameParameters_store_eq Object_entries_store_new_object)
    (simp add: Object_entries_store_def)

lemma literal_combine_fetch_result:
  assumes "valid_reference s (this_options s)"
  shows "fst (let (s1, literal) = new_object s ps;
                  (s2, combined) = combineParameters_store s1 (Some literal)
              in fetchTenorApiEndpoint_store fetch s2 resourceName combined) =
         fetchTenorApiEndpoint fetch resourceName (combineParameters (client_of s) (Some ps))"
proof -
  let ?s1 = "s\<lparr>heap := heap s @ [\<lparr>properties = ps, frozen = False\<rparr>]\<rparr>"
  have 1: "new_object s ps = (?s1, length (heap s))"
    by (simp add: new_object_def)
  have literal: "optional_entries ?s1 (Some (length (heap s))) = Some ps"
    by (simp add: optional_entries_def Object_entries_store_def)
  have client: "client_of ?s1 = client_of s"
    using assms by (rule client_of_append)
  let ?s2 = "?s1\<lparr>heap := heap ?s1 @
          [\<lparr>properties = combineParameters (client_of s) (Some ps), frozen = True\<rparr>]\<rparr>"
  have 2: "combineParameters_store ?s1 (Some (length (heap s))) = (?s2, length (heap ?s1))"
    by (simp only: combineParameters_store_eq literal client)
  have "fst (fetchTenorApiEndpoint_store fetch ?s2 resourceName (length (heap ?s1))) =
          fetchTenorApiEndpoint fetch resourceName (Object_entries_store ?s2 (length (heap ?s1)))"
    by (rule fetchTenorApiEndpoint_store_result) simp
  moreover have "Object_entries_store ?s2 (length (heap ?s1)) =
                   combineParameters (client_of s) (Some ps)"
    by (simp add: Object_entries_store_def nth_append)
  ultimately show ?thesis
    by (simp add: 1 2)
qed

lemma combine_fetch_result:
  "fst (let (s1, combined) = combineParameters_store s parameters
        in fetchTenorApiEndpoint_store fetch s1 resourceName combined) =
   fetchTenorApiEndpoint fetch resourceName
     (combineParameters (client_of s) (optional_entries s parameters))"
proof -
  let ?s1 = "s\<lparr>heap := heap s @
          [\<lparr>properties = combineParameters (client_of s) (optional_entries s parameters),
            frozen = True\<rparr>]\<rparr>"
  have "fst (fetchTenorApiEndpoint_store fetch ?s1 resourceName (length (heap s))) =
          fetchTenorApiEndpoint fetch resourceName (Object_entries_store ?s1 (length (heap s)))"
    by (rule fetchTenorApiEndpoint_store_result) simp
  moreover have "Object_entries_store ?s1 (length (heap s)) =
                   combineParameters (client_of s) (optional_entries s parameters)"
    by (simp add: Object_entries_store_def)
  ultimately show ?thesis
    by (simp add: combineParameters_store_eq)
qed

text \<open>
  The functions on the store return what the functions on values return, when the
  references they are given point into the heap.
\<close>

lemma store_results:
  assumes "valid_reference s (this_options s)"
  shows "fst (getSearchTermSuggestions_store fetch s searchTerm parameters) =
           getSearchTermSuggestions fetch (client_of s) searchTerm (optional_entries s parameters)"
    and "fst (getSearchTermAutocompletes_store fetch s searchTerm parameters) =
           getSearchTermAutocompletes fetch (client_of s) searchTerm (optional_entries s parameters)"
    and "fst (getTrendingSearchTerms_store fetch s parameters) =
           getTrendingSearchTerms fetch (client_of s) (optional_entries s parameters)"
    and "fst (getGifsBySearch_store fetch s searchTerm parameters) =
           getGifsBySearch fetch (client_of s) searchTerm (optional_entries s parameters)"
    and "fst (getGifsById_store fetch s ids parameters) =
           getGifsById fetch (client_of s) ids (optional_entries s parameters)"
    and "fst (getFeaturedGifs_store fetch s parameters) =
           getFeaturedGifs fetch (client_of s) (optional_entries s parameters)"
    and "fst (getGifCategories_store fetch s parameters) =
           getGifCategories fetch (client_of s) (optional_entries s parameters)"
proof -
  show "fst (getSearchTermSuggestions_store fetch s searchTerm parameters) =
           getSearchTermSuggestions fetch (client_of s) searchTerm (optional_entries s parameters)"
    unfolding getSearchTermSuggestions_store_def getSearchTermSuggestions_def
    by (rule literal_combine_fetch_result[OF assms])
  show "fst (getSearchTermAutocompletes_store fetch s searchTerm parameters) =
           getSearchTermAutocompletes fetch (client_of s) searchTerm (optional_entries s parameters)"
    unfolding getSearchTermAutocompletes_store_def getSearchTermAutocompletes_def
    by (rule literal_combine_fetch_result[OF assms])
  show "fst (getTrendingSearchTerms_store fetch s parameters) =
           getTrendingSearchTerms fetch (client_of s) (optional_entries s parameters)"
    unfolding getTrendingSearchTerms_store_def getTrendingSearchTerms_def
    by (rule combine_fetch_result)
  show "fst (getGifsBySearch_store fetch s searchTerm parameters) =
           getGifsBySearch fetch (client_of s) searchTerm (optional_entries s parameters)"
    unfolding getGifsBySearch_store_def getGifsBySearch_def
    by (rule literal_combine_fetch_result[OF assms])
  show "fst (getGifsById_store fetch s ids parameters) =
           getGifsById fetch (client_of s) ids (optional_entries s parameters)"
    unfolding getGifsById_store_def getGifsById_def
    by (rule literal_combine_fetch_result[OF assms])
  show "fst (getFeaturedGifs_store fetch s parameters) =
           getFeaturedGifs fetch (client_of s) (optional_entries s parameters)"
    unfolding getFeaturedGifs_store_def getFeaturedGifs_def
    by (rule combine_fetch_result)
  show "fst (getGifCategories_store fetch s parameters) =
           getGifCategories fetch (client_of s) (optional_entries s parameters)"
    unfolding getGifCategories_store_def getGifCategories_def
    by (rule combine_fetch_result)
qed

lemma getGifsByCategory_store_result:
  "fst (getGifsByCategory_store fetch s category parameters) =
     getGifsByCategory fetch (client_of s) category (optional_entries s parameters)"
  by (simp add: getGifsByCategory_store_def getGifsByCategory_def combineParameters_store_eq
      renameParameters_store_eq Object_entries_store_def new_object_def nth_append)

lemma registerGifShareEvent_store_result:
  "fst (registerGifShareEvent_store fetch s gifId parameters) =
     registerGifShareEvent fetch (client_of s) gifId (optional_entries s parameters)"
proof -
  let ?ps = "spread_optional [(''id'', JStr gifId)] (optional_entries s parameters)"
  let ?s1 = "s\<lparr>heap := heap s @ [\<lparr>properties = ?ps, frozen = False\<rparr>]\<rparr>"
  have "fst (fetchTenorApiEndpoint_store fetch ?s1 ''registershare'' (length (heap s))) =
          fetchTenorApiEndpoint fetch ''registershare'' (Object_entries_store ?s1 (length (heap s)))"
    by (rule fetchTenorApiEndpoint_store_result) simp
  moreover have "Object_entries_store ?s1 (length (heap s)) = ?ps"
    by (simp add: Object_entries_store_def)
  ultimately show ?thesis
    by (simp add: registerGifShareEvent_store_def registerGifShareEvent_def new_object_def
        split_def split: sum.splits)
qed

text \<open>
  C10. Every public operation of the client leaves the state as it found it: after the
  call the access key and the options reference of the client are what they were, and
  every object that existed before the call, the options object and the per-call
  parameters among them, has the properties and the frozen flag it had. The normaliser
  and the parameter combiner do not throw, leave the state alone in the same sense, and
  return a new object that is frozen and holds what the functions on values compute.
\<close>

theorem operations_preserve_state:
  "preserved s (snd (getSearchTermSuggestions_store fetch s searchTerm parameters))
   \<and> preserved s (snd (getSearchTermAutocompletes_store fetch s searchTerm parameters))
   \<and> preserved s (snd (getTrendingSearchTerms_store fetch s parameters))
   \<and> preserved s (snd (getGifsBySearch_store fetch s searchTerm parameters))
   \<and> preserved s (snd (getGifsByCategory_store fetch s category parameters))
   \<and> preserved s (snd (getGifsById_store fetch s ids parameters))
   \<and> preserved s (snd (getFeaturedGifs_store fetch s parameters))
   \<and> preserved s (snd (getGifCategories_store fetch s parameters))
   \<and> preserved s (snd (registerGifShareEvent_store fetch s gifId parameters))
   \<and> (\<exists>s' renamed.
         renameParameters_store s a = Some (s', renamed) \<and> preserved s s' \<and>
         length (heap s) \<le> renamed \<and> renamed < length (heap s') \<and>
         frozen (heap s' ! renamed) \<and>
         (a < length (heap s) \<longrightarrow>
            properties (heap s' ! renamed) = renameParameters (properties (heap s ! a))))
   \<and> (\<exists>s' combined.
         combineParameters_store s parameters = (s', combined) \<and> preserved s s' \<and>
         length (heap s) \<le> combined \<and> combined < length (heap s') \<and>
         frozen (heap s' ! combined) \<and>
         properties (heap s' ! combined) =
           combineParameters (client_of s) (optional_entries s parameters))"
proof (intro conjI)
  show "preserved s (snd (getSearchTermSuggestions_store fetch s searchTerm parameters))"
    unfolding getSearchTermSuggestions_store_def by (rule preserved_literal_combine_fetch)
  show "preserved s (snd (getSearchTermAutocompletes_store fetch s searchTerm parameters))"
    unfolding getSearchTermAutocompletes_store_def by (rule preserved_literal_combine_fetch)
  show "preserved s (snd (getTrendingSearchTerms_store fetch s parameters))"
    unfolding getTrendingSearchTerms_store_def by (rule preserved_combine_fetch)
  show "preserved s (snd (getGifsBySearch_store fetch s searchTerm parameters))"
    unfolding getGifsBySearch_store_def by (rule preserved_literal_combine_fetch)
  show "preserved s (snd (getGifsByCategory_store fetch s category parameters))"
    by (rule preserved_getGifsByCategory_store)
  show "preserved s (snd (getGifsById_store fetch s ids parameters))"
    unfolding getGifsById_store_def by (rule preserved_literal_combine_fetch)
  show "preserved s (snd (getFeaturedGifs_store fetch s parameters))"
    unfolding getFeaturedGifs_store_def by (rule preserved_combine_fetch)
  show "preserved s (snd (getGifCategories_store fetch s parameters))"
    unfolding getGifCategories_store_def by (rule preserved_combine_fetch)
  show "preserved s (snd (registerGifShareEvent_store fetch s gifId parameters))"
    by (rule preserved_registerGifShareEvent_store)
  show "\<exists>s' renamed.
         renameParameters_store s a = Some (s', renamed) \<and> preserved s s' \<and>
         length (heap s) \<le> renamed \<and> renamed < length (heap s') \<and>
         frozen (heap s' ! renamed) \<and>
         (a < length (heap s) \<longrightarrow>
            properties (heap s' ! renamed) = renameParameters (properties (heap s ! a)))"
    by (simp add: renameParameters_store_eq preserved_append Object_entries_store_new_object)
      (simp add: Object_entries_store_def)
  show "\<exists>s' combined.
         combineParameters_store s parameters = (s', combined) \<and> preserved s s' \<and>
         length (heap s) \<le> combined \<and> combined < length (heap s') \<and>
         frozen (heap s' ! combined) \<and>
         properties (heap s' ! combined) =
           combineParameters (client_of s) (optional_entries s parameters)"
    by (simp add: combineParameters_store_eq preserved_append)
qed

theorem operations_preserve_state_witness:
  "preserved
     \<lparr>heap = [\<lparr>properties = [(''clientKey'', JStr ''app'')], frozen = False\<rparr>,
              \<lparr>properties = [(''limit'', JNum (JsDecimal False 8 1))], frozen = False\<rparr>],
      this_key = ''K'', this_options = Some 0\<rparr>
     (snd (getGifsBySearch_store (\<lambda>p. Inl (TransportError p) :: int error + int response)
        \<lparr>heap = [\<lparr>properties = [(''clientKey'', JStr ''app'')], frozen = False\<rparr>,
                 \<lparr>properties = [(''limit'', JNum (JsDecimal False 8 1))], frozen = False\<rparr>],
         this_key = ''K'', this_options = Some 0\<rparr>
        ''excited'' (Some 1)))
   \<and> heap (snd (getGifsBySearch_store (\<lambda>p. Inl (TransportError p) :: int error + int response)
        \<lparr>heap = [\<lparr>properties = [(''clientKey'', JStr ''app'')], frozen = False\<rparr>,
                 \<lparr>properties = [(''limit'', JNum (JsDecimal False 8 1))], frozen = False\<rparr>],
         this_key = ''K'', this_options = Some 0\<rparr>
        ''excited'' (Some 1))) ! 1
     = \<lparr>properties = [(''limit'', JNum (JsDecimal False 8 1))], frozen = False\<rparr>
   \<and> this_key (snd (getGifsBySearch_store (\<lambda>p. Inl (TransportError p) :: int error + int response)
        \<lparr>heap = [\<lparr>properties = [(''clientKey'', JStr ''app'')], frozen = False\<rparr>,
                 \<lparr>properties = [(''limit'', JNum (JsDecimal False 8 1))], frozen = False\<rparr>],
         this_key = ''K'', this_options = Some 0\<rparr>
        ''excited'' (Some 1))) = ''K''"
proof -
  let ?s = "\<lparr>heap = [\<lparr>properties = [(''clientKey'', JStr ''app'')], frozen = False\<rparr>,
              \<lparr>properties = [(''limit'', JNum (JsDecimal False 8 1))], frozen = False\<rparr>],
      this_key = ''K'', this_options = Some 0\<rparr>"
  let ?s' = "snd (getGifsBySearch_store (\<lambda>p. Inl (TransportError p) :: int error + int response)
        ?s ''excited'' (Some 1))"
  have p: "preserved ?s ?s'"
    using operations_preserve_state
      [of ?s "\<lambda>p. Inl (TransportError p) :: int error + int response" "''excited''" "Some 1"]
    by blast
  then have "heap ?s' ! 1 = heap ?s ! 1" "this_key ?s' = this_key ?s"
    by (simp_all add: preserved_def)
  with p show ?thesis by simp
qed

section \<open>Determinism of the pipeline\<close>

lemma renameParameters_foldl_append:
  assumes "distinct (map (\<lambda>kv. newName (fst kv)) parameters)"
    and "newName ` fst ` set parameters \<inter> fst ` set acc = {}"
  shows "foldl (\<lambda>renamedParameters (currentName, value).
              Object_assign renamedParameters [(newName currentName, value)]) acc parameters
   = acc @ map (\<lambda>(k, v). (newName k, v)) (filter (\<lambda>(k, v). k \<noteq> ''__proto__'') parameters)"
  using assms
proof (induction parameters arbitrary: acc)
  case Nil
  show ?case by simp
next
  case (Cons p parameters)
  obtain k v where p: "p = (k, v)" by (cases p)
  from Cons.prems p have d: "distinct (map (\<lambda>kv. newName (fst kv)) parameters)"
    and fresh: "newName k \<notin> newName ` fst ` set parameters"
    and disj: "newName ` fst ` set parameters \<inter> fst ` set acc = {}"
    and new: "newName k \<notin> fst ` set acc"
    by (auto simp add: image_iff)
  show ?case
  proof (cases "k = ''__proto__''")
    case True
    then have "Object_assign acc [(newName k, v)] = acc"
      by (simp add: Object_assign_def set_property_def newName_proto)
    with Cons.IH[OF d disj] p True show ?thesis by simp
  next
    case False
    then have step: "Object_assign acc [(newName k, v)] = acc @ [(newName k, v)]"
      by (simp add: Object_assign_def set_property_def newName_proto define_property_fresh[OF new])
    from fresh disj
    have "newName ` fst ` set parameters \<inter> fst ` set (acc @ [(newName k, v)]) = {}"
      by auto
    from Cons.IH[OF d this] p False step show ?thesis by simp
  qed
qed

lemma renameParameters_no_collision:
  "distinct (map (\<lambda>kv. newName (fst kv)) parameters) \<Longrightarrow>
     renameParameters parameters =
       map (\<lambda>(k, v). (newName k, v)) (filter (\<lambda>(k, v). k \<noteq> ''__proto__'') parameters)"
  using renameParameters_foldl_append[of parameters "[]"] by (simp add: renameParameters_def)

lemma mset_createUrlParameters:
  "mset q = mset p \<Longrightarrow> mset (createUrlParameters q) = mset (createUrlParameters p)"
proof -
  assume "mset q = mset p"
  then have "image_mset (\<lambda>(name, value). (to_usv name, to_usv (ToString value)))
               (filter_mset (\<lambda>(name, value). ToBoolean value \<and> value \<noteq> JArr []) (mset q))
           = image_mset (\<lambda>(name, value). (to_usv name, to_usv (ToString value)))
               (filter_mset (\<lambda>(name, value). ToBoolean value \<and> value \<noteq> JArr []) (mset p))"
    by simp
  then show ?thesis by (simp add: createUrlParameters_eq)
qed

lemma mset_pipeline:
  assumes "mset q = mset p" and "distinct (map (\<lambda>kv. newName (fst kv)) p)"
  shows "mset (createUrlParameters (renameParameters q)) =
         mset (createUrlParameters (renameParameters p))"
proof -
  from assms(1)
  have "mset (map (\<lambda>kv. newName (fst kv)) q) = mset (map (\<lambda>kv. newName (fst kv)) p)"
    by simp
  with assms(2) have dq: "distinct (map (\<lambda>kv. newName (fst kv)) q)"
    by (metis mset_eq_imp_distinct_iff)
  from assms(1)
  have "mset (map (\<lambda>(k, v). (newName k, v)) (filter (\<lambda>(k, v). k \<noteq> ''__proto__'') q))
      = mset (map (\<lambda>(k, v). (newName k, v)) (filter (\<lambda>(k, v). k \<noteq> ''__proto__'') p))"
    by simp
  with assms(2) dq have "mset (renameParameters q) = mset (renameParameters p)"
    by (simp add: renameParameters_no_collision)
  then show ?thesis
    by (rule mset_createUrlParameters)
qed

text \<open>The \<^verbatim>\<open>name=value\<close> pieces of a serialised query string, between the \<^verbatim>\<open>&\<close>.\<close>

lemma pieces_toString:
  "filter (\<lambda>bytes. bytes \<noteq> []) (split_on (CHR ''&'') (URLSearchParams_toString us)) =
     map (\<lambda>(name, v). urlencoded_serialize name @ ''='' @ urlencoded_serialize v) us"
proof (cases "us = []")
  case True
  then show ?thesis by (simp add: URLSearchParams_toString_def)
next
  case False
  let ?pieces = "map (\<lambda>(name, v). urlencoded_serialize name @ ''='' @ urlencoded_serialize v) us"
  have free: "\<forall>w \<in> set ?pieces. CHR ''&'' \<notin> set w"
    using urlencoded_serialize_no_delimiter by auto
  have nonempty: "\<forall>w \<in> set ?pieces. w \<noteq> []"
    by auto
  from False have "split_on (CHR ''&'') (join ''&'' ?pieces) = ?pieces"
    using split_on_join[OF _ free] by simp
  moreover from nonempty have "filter (\<lambda>bytes. bytes \<noteq> []) ?pieces = ?pieces"
    by (simp add: filter_id_conv)
  ultimately show ?thesis
    by (simp add: URLSearchParams_toString_def)
qed

lemma mset_pieces:
  assumes "mset us = mset vs"
  shows "mset (filter (\<lambda>bytes. bytes \<noteq> []) (split_on (CHR ''&'') (URLSearchParams_toString us)))
       = mset (filter (\<lambda>bytes. bytes \<noteq> []) (split_on (CHR ''&'') (URLSearchParams_toString vs)))"
proof -
  from assms
  have "image_mset (\<lambda>(name, v). urlencoded_serialize name @ ''='' @ urlencoded_serialize v) (mset us)
      = image_mset (\<lambda>(name, v). urlencoded_serialize name @ ''='' @ urlencoded_serialize v) (mset vs)"
    by simp
  then show ?thesis
    unfolding pieces_toString by simp
qed

lemma request_of_store:
  "parameters < length (heap s) \<Longrightarrow>
     fst (fetchTenorApiEndpoint_store (\<lambda>p. Inl (TransportError p)) s resourceName parameters) =
       Inl (TransportError
         (resourceName @ ''?'' @
          URLSearchParams_toString
            (createUrlParameters (renameParameters (Object_entries_store s parameters)))))"
  by (simp add: fetchTenorApiEndpoint_store_result fetchTenorApiEndpoint_def fetchTenorApi_def)

text \<open>
  C9. The query string is a function of the fields of the parameter object alone: two
  runs of the invoker, in any two states of the program, on objects with the same
  fields in the same order ask the transport for the same path, byte for byte, and the
  path is the one that the pipeline computes from the fields. Field order aside: the
  query builder gives the same parameters, up to their order, for two objects with the
  same fields in any order. The whole pipeline does so only when the normaliser sends
  no two fields of the object to one wire name; then the two query strings are made of
  the same \<^verbatim>\<open>name=value\<close> pieces, in some order.
\<close>

theorem pipeline_deterministic:
  "(parameters < length (heap s) \<and> parameters' < length (heap s') \<and>
    Object_entries_store s parameters = Object_entries_store s' parameters' \<longrightarrow>
      fst (fetchTenorApiEndpoint_store (\<lambda>p. Inl (TransportError p)) s resourceName parameters) =
      fst (fetchTenorApiEndpoint_store (\<lambda>p. Inl (TransportError p)) s' resourceName parameters')
    \<and> fst (fetchTenorApiEndpoint_store (\<lambda>p. Inl (TransportError p)) s resourceName parameters) =
        Inl (TransportError
          (resourceName @ ''?'' @
           URLSearchParams_toString
             (createUrlParameters (renameParameters (Object_entries_store s parameters))))))
   \<and> (mset q = mset p \<longrightarrow> mset (createUrlParameters q) = mset (createUrlParameters p))
   \<and> (mset q = mset p \<and> distinct (map (\<lambda>kv. newName (fst kv)) p) \<longrightarrow>
        mset (createUrlParameters (renameParameters q)) =
        mset (createUrlParameters (renameParameters p))
      \<and> mset (filter (\<lambda>bytes. bytes \<noteq> []) (split_on (CHR ''&'')
          (URLSearchParams_toString (createUrlParameters (renameParameters q))))) =
        mset (filter (\<lambda>bytes. bytes \<noteq> []) (split_on (CHR ''&'')
          (URLSearchParams_toString (createUrlParameters (renameParameters p))))))"
proof (intro conjI impI)
  assume a: "parameters < length (heap s) \<and> parameters' < length (heap s') \<and>
    Object_entries_store s parameters = Object_entries_store s' parameters'"
  then show "fst (fetchTenorApiEndpoint_store (\<lambda>p. Inl (TransportError p)) s resourceName
        parameters) =
      fst (fetchTenorApiEndpoint_store (\<lambda>p. Inl (TransportError p)) s' resourceName parameters')"
    by (simp add: request_of_store)
  from a show "fst (fetchTenorApiEndpoint_store (\<lambda>p. Inl (TransportError p)) s resourceName
        parameters) =
      Inl (TransportError
        (resourceName @ ''?'' @
         URLSearchParams_toString
           (createUrlParameters (renameParameters (Object_entries_store s parameters)))))"
    by (simp add: request_of_store)
next
  assume "mset q = mset p"
  then show "mset (createUrlParameters q) = mset (createUrlParameters p)"
    by (rule mset_createUrlParameters)
next
  assume a: "mset q = mset p \<and> distinct (map (\<lambda>kv. newName (fst kv)) p)"
  then have "mset q = mset p" and "distinct (map (\<lambda>kv. newName (fst kv)) p)"
    by simp_all
  then show entries: "mset (createUrlParameters (renameParameters q)) =
      mset (createUrlParameters (renameParameters p))"
    by (rule mset_pipeline)
  then show "mset (filter (\<lambda>bytes. bytes \<noteq> []) (split_on (CHR ''&'')
          (URLSearchParams_toString (createUrlParameters (renameParameters q))))) =
        mset (filter (\<lambda>bytes. bytes \<noteq> []) (split_on (CHR ''&'')
          (URLSearchParams_toString (createUrlParameters (renameParameters p)))))"
    by (rule mset_pieces)
qed

theorem pipeline_deterministic_witness:
  "fst (fetchTenorApiEndpoint_store (\<lambda>p. Inl (TransportError p))
      \<lparr>heap = [\<lparr>properties = [(''searchTerm'', JStr ''excited''),
                               (''limit'', JNum (JsDecimal False 8 1))], frozen = False\<rparr>],
       this_key = ''K'', this_options = None\<rparr> ''search'' 0)
   = (fst (fetchTenorApiEndpoint_store (\<lambda>p. Inl (TransportError p))
      \<lparr>heap = [\<lparr>properties = [(''clientKey'', JStr ''app'')], frozen = True\<rparr>,
               \<lparr>properties = [(''searchTerm'', JStr ''excited''),
                               (''limit'', JNum (JsDecimal False 8 1))], frozen = True\<rparr>],
       this_key = ''L'', this_options = Some 0\<rparr> ''search'' 1) :: int error + int json)
   \<and> fst (fetchTenorApiEndpoint_store (\<lambda>p. Inl (TransportError p))
      \<lparr>heap = [\<lparr>properties = [(''searchTerm'', JStr ''excited''),
                               (''limit'', JNum (JsDecimal False 8 1))], frozen = False\<rparr>],
       this_key = ''K'', this_options = None\<rparr> ''search'' 0)
   = (Inl (TransportError ''search?q=excited&limit=8'') :: int error + int json)
   \<and> mset (createUrlParameters (renameParameters
      [(''limit'', JNum (JsDecimal False 8 1)), (''searchTerm'', JStr ''excited'')]))
     = mset (createUrlParameters (renameParameters
      [(''searchTerm'', JStr ''excited''), (''limit'', JNum (JsDecimal False 8 1))]))
   \<and> mset (filter (\<lambda>bytes. bytes \<noteq> []) (split_on (CHR ''&'')
        (URLSearchParams_toString (createUrlParameters (renameParameters
          [(''limit'', JNum (JsDecimal False 8 1)), (''searchTerm'', JStr ''excited'')])))))
     = mset [''q=excited'', ''limit=8'']"
  using pipeline_deterministic
    [of 0 "\<lparr>heap = [\<lparr>properties = [(''searchTerm'', JStr ''excited''),
                               (''limit'', JNum (JsDecimal False 8 1))], frozen = False\<rparr>],
       this_key = ''K'', this_options = None\<rparr>"
        1 "\<lparr>heap = [\<lparr>properties = [(''clientKey'', JStr ''app'')], frozen = True\<rparr>,
               \<lparr>properties = [(''searchTerm'', JStr ''excited''),
                               (''limit'', JNum (JsDecimal False 8 1))], frozen = True\<rparr>],
       this_key = ''L'', this_options = Some 0\<rparr>"
        "''search''"
        "[(''limit'', JNum (JsDecimal False 8 1)), (''searchTerm'', JStr ''excited'')]"
        "[(''searchTerm'', JStr ''excited''), (''limit'', JNum (JsDecimal False 8 1))]"]
  by (simp add: Object_entries_store_def
      renameParameters_def Object_assign_def set_property_def newName_def
      newParameterNames_def
      createUrlParameters_def append_param_def is_surrogate_def URLSearchParams_toString_def
      decimal_toString_def nat_to_string.simps digit_char_def
      urlencoded_serialize_def urlencoded_byte_def urlencoded_safe_def)

text \<open>
  Without the proviso the order of the fields shows in the query string: the object with
  \<^verbatim>\<open>searchTerm\<close> before \<^verbatim>\<open>q\<close> and the one with \<^verbatim>\<open>q\<close> before
  \<^verbatim>\<open>searchTerm\<close> have the same fields and give \<^verbatim>\<open>q=b\<close> and \<^verbatim>\<open>q=a\<close>.
\<close>

theorem pipeline_order_counterexample:
  "mset [(''searchTerm'', JStr ''a''), (''q'', JStr ''b'')]
     = mset [(''q'', JStr ''b''), (''searchTerm'', JStr ''a'')]
   \<and> URLSearchParams_toString (createUrlParameters (renameParameters
        [(''searchTerm'', JStr ''a''), (''q'', JStr ''b'')])) = ''q=b''
   \<and> URLSearchParams_toString (createUrlParameters (renameParameters
        [(''q'', JStr ''b''), (''searchTerm'', JStr ''a'')])) = ''q=a''
   \<and> ''q=b'' \<noteq> ''q=a''"
  by (simp add: renameParameters_def Object_assign_def set_property_def newName_def
      newParameterNames_def
      createUrlParameters_def append_param_def URLSearchParams_toString_def
      urlencoded_serialize_def urlencoded_byte_def urlencoded_safe_def)

end
